theory Spec2Isabelle
  imports Main "HOL-Library.Word" "HOL-Library.AList"
begin

section \<open>Go channels\<close>

text \<open>
  A Go channel of strings: the buffered values (oldest first), the capacity given to
  \<^verbatim>\<open>make\<close> and whether \<^verbatim>\<open>close\<close> has been called. Every channel of this
  program is made with capacity 1. A channel operation either completes, panics or
  blocks the goroutine.
\<close>

record chan =
  buf :: "string list"
  cap :: nat
  closed :: bool

datatype 'a go = Done 'a | Panic | Block

definition make_chan :: "nat \<Rightarrow> chan" where
  "make_chan n = \<lparr>buf = [], cap = n, closed = False\<rparr>"

text \<open>\<^verbatim>\<open>ch <- v\<close> on a non-nil channel: panics when closed, blocks when the buffer is full.\<close>

definition chan_send :: "chan \<Rightarrow> string \<Rightarrow> chan go" where
  "chan_send ch v =
     (if closed ch then Panic
      else if length (buf ch) < cap ch then Done (ch\<lparr>buf := buf ch @ [v]\<rparr>)
      else Block)"

text \<open>
  \<^verbatim>\<open><-ch\<close>: the oldest buffered value; the zero value from a closed, drained channel;
  \<open>None\<close> when the receive is not ready (open and empty).
\<close>

definition chan_recv :: "chan \<Rightarrow> (string \<times> chan) option" where
  "chan_recv ch =
     (case buf ch of
        v # vs \<Rightarrow> Some (v, ch\<lparr>buf := vs\<rparr>)
      | [] \<Rightarrow> if closed ch then Some ('''', ch) else None)"

text \<open>\<^verbatim>\<open>close(ch)\<close>: \<open>None\<close> is the panic on a channel that is already closed.\<close>

definition chan_close :: "chan \<Rightarrow> chan option" where
  "chan_close ch = (if closed ch then None else Some (ch\<lparr>closed := True\<rparr>))"

section \<open>Messages and the client session\<close>

datatype Message = Message (req_action: string) (req_message_id: string) (req_param: string)

datatype MessageResponse =
  MessageResponse (resp_action: string) (resp_message_id: string) (resp_response_data: string)

text \<open>
  The websocket connection owned by a session is open or closed. What a write on it
  returns is decided by the network and is an input of the model; a write on a closed
  connection fails.
\<close>

datatype conn = ConnOpen | ConnClosed

datatype write_result = WriteOk | WriteErr | WritePanic

definition WriteMessage :: "conn \<Rightarrow> write_result \<Rightarrow> write_result" where
  "WriteMessage ws wr = (case ws of ConnClosed \<Rightarrow> WriteErr | ConnOpen \<Rightarrow> wr)"

type_synonym addr = nat

text \<open>
  The struct \<^verbatim>\<open>Clients\<close>. \<open>actionData\<close> maps an action to its table of message ids; a
  missing action is Go's nil inner map. The table holds channel references (addresses
  into the channel store). \<open>failCount\<close> is a Go \<^verbatim>\<open>int\<close>, taken at 64 bits, compared
  signed. \<open>wsMu\<close> is True while the write lock is held.
\<close>

record Clients =
  clientGroup :: string
  clientId :: string
  clientIp :: string
  actionData :: "string \<rightharpoonup> (string \<rightharpoonup> addr)"
  clientWs :: conn
  lastPingTime :: "64 word"
  failCount :: "64 word"
  isHealthy :: bool
  wsMu :: bool
  registeredActions :: "string list"

definition NewClient :: "string \<Rightarrow> string \<Rightarrow> string \<Rightarrow> 64 word \<Rightarrow> Clients" where
  "NewClient grp uid ip now =
     \<lparr>clientGroup = grp, clientId = uid, clientIp = ip, actionData = Map.empty,
      clientWs = ConnOpen, lastPingTime = now, failCount = 0, isHealthy = True,
      wsMu = False, registeredActions = []\<rparr>"

text \<open>
  A session together with the channels its table refers to: \<open>chans\<close> is the store of
  channels, \<open>nextAddr\<close> the address the next \<^verbatim>\<open>make(chan string, 1)\<close> returns.
\<close>

record state =
  client :: Clients
  chans :: "addr \<Rightarrow> chan"
  nextAddr :: addr

definition readFromMap :: "Clients \<Rightarrow> string \<Rightarrow> string \<Rightarrow> addr option" where
  "readFromMap c funcName MessageId =
     (case actionData c funcName of None \<Rightarrow> None | Some m \<Rightarrow> m MessageId)"

text \<open>
  \<^verbatim>\<open>writeToMap\<close> looks the channel up again under the lock and sends on it. A missing
  entry is a nil channel, and a send on a nil channel blocks forever (with the lock
  held); a send on a closed channel panics and the deferred \<^verbatim>\<open>recover\<close> swallows it; a
  send on a full channel blocks until a receiver takes the buffered value.
\<close>

datatype wtm = Delivered state | Recovered state | BlockedNil | BlockedFull

definition writeToMap :: "state \<Rightarrow> string \<Rightarrow> string \<Rightarrow> string \<Rightarrow> wtm" where
  "writeToMap st funcName MessageId msg =
     (case readFromMap (client st) funcName MessageId of
        None \<Rightarrow> BlockedNil
      | Some a \<Rightarrow>
          (case chan_send (chans st a) msg of
             Done ch \<Rightarrow> Delivered (st\<lparr>chans := (chans st)(a := ch)\<rparr>)
           | Panic \<Rightarrow> Recovered st
           | Block \<Rightarrow> BlockedFull))"

section \<open>The read loop, the heartbeat and the pong handler\<close>

text \<open>
  One iteration of the read loop of \<^verbatim>\<open>ws\<close> (lines 170 to 207 of the file that
  declares \<^verbatim>\<open>Clients\<close>, \<^verbatim>\<open>ws\<close> and \<^verbatim>\<open>kickClient\<close>); \<open>handleResponse\<close> is the
  part after the decoding of the frame. The two JSON decoders are inputs:
  \<open>unmarshalResp\<close> decodes a frame into a \<open>MessageResponse\<close>, \<open>unmarshalActions\<close>
  decodes \<^verbatim>\<open>response_data\<close> into a list of strings; \<open>None\<close> is a decoding error. A
  read on a closed connection fails.
\<close>

datatype read_result = ReadErr | ReadMsg string

datatype loop = Continue state | Break | StuckForever | ParkedOnFullSlot

definition ReadMessage :: "conn \<Rightarrow> read_result \<Rightarrow> read_result" where
  "ReadMessage ws rd = (case ws of ConnClosed \<Rightarrow> ReadErr | ConnOpen \<Rightarrow> rd)"

definition handleResponse ::
  "(string \<Rightarrow> string list option) \<Rightarrow> MessageResponse \<Rightarrow> state \<Rightarrow> loop" where
  "handleResponse unmarshalActions messageStruct st =
     (let action = resp_action messageStruct;
          messageId = resp_message_id messageStruct;
          msg = resp_response_data messageStruct
      in if action = ''_registerActions'' \<and> messageId = '''' then
           (case unmarshalActions msg of
              Some actions \<Rightarrow> Continue (st\<lparr>client := (client st)\<lparr>registeredActions := actions\<rparr>\<rparr>)
            | None \<Rightarrow> Continue st)
         else if readFromMap (client st) action messageId = None then Continue st
         else (case writeToMap st action messageId msg of
                 Delivered st' \<Rightarrow> Continue st'
               | Recovered st' \<Rightarrow> Continue st'
               | BlockedNil \<Rightarrow> StuckForever
               | BlockedFull \<Rightarrow> ParkedOnFullSlot))"

definition ws_iteration ::
  "(string \<Rightarrow> MessageResponse option) \<Rightarrow> (string \<Rightarrow> string list option) \<Rightarrow>
   read_result \<Rightarrow> state \<Rightarrow> loop" where
  "ws_iteration unmarshalResp unmarshalActions rd st =
     (case ReadMessage (clientWs (client st)) rd of
        ReadErr \<Rightarrow> Break
      | ReadMsg message \<Rightarrow>
          (case unmarshalResp message of
             None \<Rightarrow> Continue st
           | Some messageStruct \<Rightarrow> handleResponse unmarshalActions messageStruct st))"

text \<open>
  The pong handler stores the time of the acknowledgement. One tick of the heartbeat
  goroutine takes the write lock, sends a ping and marks the session unhealthy when
  the send fails (\<open>ok = False\<close>); it blocks while the write lock is held.
\<close>

definition pongHandler :: "64 word \<Rightarrow> Clients \<Rightarrow> Clients" where
  "pongHandler now c = c\<lparr>lastPingTime := now\<rparr>"

definition heartbeatTick :: "bool \<Rightarrow> Clients \<Rightarrow> Clients go" where
  "heartbeatTick ok c =
     (if wsMu c then Block
      else if ok then Done c
      else Done (c\<lparr>isHealthy := False\<rparr>))"

section \<open>GQueryFunc: one request to the client\<close>

text \<open>
  \<^verbatim>\<open>GQueryFunc\<close> of \<^verbatim>\<open>core/engine.go\<close>, whose lines the text below cites. The call
  is split where it can be suspended, so that steps of other goroutines can be placed
  between its phases: up to the written frame, the lookup of its channel, and the
  select. First the result strings of the source, as UTF-8 bytes.
\<close>

definition msg_internal_error :: string where
  "msg_internal_error =
     [CHR 0xE5, CHR 0x86, CHR 0x85, CHR 0xE9, CHR 0x83, CHR 0xA8, CHR 0xE9, CHR 0x94,
      CHR 0x99, CHR 0xE8, CHR 0xAF, CHR 0xAF]"

definition msg_marshal_failed :: string where
  "msg_marshal_failed =
     ''JSON'' @ [CHR 0xE5, CHR 0xBA, CHR 0x8F, CHR 0xE5, CHR 0x88, CHR 0x97, CHR 0xE5,
      CHR 0x8C, CHR 0x96, CHR 0xE5, CHR 0xA4, CHR 0xB1, CHR 0xE8, CHR 0xB4, CHR 0xA5]"

definition msg_send_failed :: string where
  "msg_send_failed =
     ''rpc'' @ [CHR 0xE5, CHR 0x8F, CHR 0x91, CHR 0xE9, CHR 0x80, CHR 0x81, CHR 0xE6,
      CHR 0x95, CHR 0xB0, CHR 0xE6, CHR 0x8D, CHR 0xAE, CHR 0xE5, CHR 0xA4, CHR 0xB1,
      CHR 0xE8, CHR 0xB4, CHR 0xA5]"

definition msg_no_channel :: string where
  "msg_no_channel =
     [CHR 0xE6, CHR 0xB6, CHR 0x88, CHR 0xE6, CHR 0x81, CHR 0xAF] @ ''ID'' @
     [CHR 0xE5, CHR 0xAF, CHR 0xB9, CHR 0xE5, CHR 0xBA, CHR 0x94, CHR 0xE7, CHR 0x9A,
      CHR 0x84, CHR 0xE7, CHR 0xAE, CHR 0xA1, CHR 0xE9, CHR 0x81, CHR 0x93, CHR 0xE4,
      CHR 0xB8, CHR 0x8D, CHR 0xE5, CHR 0xAD, CHR 0x98, CHR 0xE5, CHR 0x9C, CHR 0xA8]"

definition msg_timeout :: string where
  "msg_timeout =
     [CHR 0xE8, CHR 0x8E, CHR 0xB7, CHR 0xE5, CHR 0x8F, CHR 0x96, CHR 0xE7, CHR 0xBB,
      CHR 0x93, CHR 0xE6, CHR 0x9E, CHR 0x9C, CHR 0xE8, CHR 0xB6, CHR 0x85, CHR 0xE6,
      CHR 0x97, CHR 0xB6] @ '' timeout''"

text \<open>
  Lines 30 to 45. The test for a missing action table and its creation are separate
  steps (only the creation holds the lock), and so are the test for a free message id
  and the insertion of the new channel: \<open>createActionMap\<close> and \<open>insertSlot\<close> are the
  two locked steps. An assignment into a nil inner map panics.
\<close>

definition createActionMap :: "string \<Rightarrow> state \<Rightarrow> state" where
  "createActionMap funcName st =
     st\<lparr>client := (client st)\<lparr>actionData := (actionData (client st))(funcName \<mapsto> Map.empty)\<rparr>\<rparr>"

definition insertSlot :: "string \<Rightarrow> string \<Rightarrow> state \<Rightarrow> state go" where
  "insertSlot funcName MessageId st =
     (case actionData (client st) funcName of
        None \<Rightarrow> Panic
      | Some m \<Rightarrow>
          Done (st\<lparr>client := (client st)\<lparr>actionData :=
                      (actionData (client st))(funcName \<mapsto> m(MessageId \<mapsto> nextAddr st))\<rparr>,
                   chans := (chans st)(nextAddr st := make_chan 1),
                   nextAddr := Suc (nextAddr st)\<rparr>))"

text \<open>
  The loop of lines 36 to 45 over the successive results of \<^verbatim>\<open>utils.GetUUID\<close>, given
  as a list: \<open>None\<close> when every id of the list is taken, that is, the loop is still
  running after that many draws.
\<close>

fun assignMessageId :: "string list \<Rightarrow> string \<Rightarrow> state \<Rightarrow> (string \<times> state) go option" where
  "assignMessageId [] funcName st = None"
| "assignMessageId (u # us) funcName st =
     (if readFromMap (client st) funcName u = None then
        (case insertSlot funcName u st of
           Done st' \<Rightarrow> Some (Done (u, st'))
         | Panic \<Rightarrow> Some Panic
         | Block \<Rightarrow> Some Block)
      else assignMessageId us funcName st)"

text \<open>
  The deferred function of lines 47 to 71: under the lock, delete the entry and close
  the channel found there (a panic of \<^verbatim>\<open>close\<close> is recovered), then close \<open>resChan\<close>
  (likewise).
\<close>

definition cleanup :: "string \<Rightarrow> string \<Rightarrow> state \<Rightarrow> chan \<Rightarrow> state \<times> chan" where
  "cleanup funcName MessageId st resChan =
     (let st' =
        (case actionData (client st) funcName of
           None \<Rightarrow> st
         | Some m \<Rightarrow>
             (case m MessageId of
                None \<Rightarrow> st
              | Some ch \<Rightarrow>
                  (let st1 = st\<lparr>client := (client st)\<lparr>actionData :=
                               (actionData (client st))(funcName \<mapsto> m(MessageId := None))\<rparr>\<rparr>
                   in case chan_close (chans st1 ch) of
                        Some c \<Rightarrow> st1\<lparr>chans := (chans st1)(ch := c)\<rparr>
                      | None \<Rightarrow> st1)));
          resChan' = (case chan_close resChan of Some r \<Rightarrow> r | None \<Rightarrow> resChan)
      in (st', resChan'))"

text \<open>
  The deferred function of lines 16 to 28, run when the call panicked: send the
  internal-error string and close \<open>resChan\<close>; a panic of the send is recovered by the
  inner deferred function, and then the close is skipped. \<open>None\<close>: the send blocks.
\<close>

definition recoverHandler :: "chan \<Rightarrow> chan option" where
  "recoverHandler resChan =
     (case chan_send resChan msg_internal_error of
        Done r \<Rightarrow> (case chan_close r of Some r' \<Rightarrow> Some r' | None \<Rightarrow> Some r)
      | Panic \<Rightarrow> Some resChan
      | Block \<Rightarrow> None)"

text \<open>
  Where a call stands: it returned (with the session state and \<open>resChan\<close> as the
  deferred functions left them), it wrote the frame and is about to look its channel
  up (line 99), it waits in the \<^verbatim>\<open>select\<close> of line 104 on the channel it looked up,
  or it cannot proceed from the state it has reached.
\<close>

datatype gq =
  Finished state chan | Sent state string | Waiting state string addr | Blocked state

text \<open>
  A panic after line 47 runs the deferred functions last registered first: \<open>cleanup\<close>,
  then \<open>recoverHandler\<close>. A plain return after \<^verbatim>\<open>resChan <- v\<close> runs \<open>cleanup\<close>; the
  recover handler then finds no panic.
\<close>

definition panicExit :: "string \<Rightarrow> string \<Rightarrow> state \<Rightarrow> chan \<Rightarrow> gq" where
  "panicExit funcName MessageId st resChan =
     (case cleanup funcName MessageId st resChan of
        (st', r) \<Rightarrow> (case recoverHandler r of Some r' \<Rightarrow> Finished st' r' | None \<Rightarrow> Blocked st'))"

definition returnWith :: "string \<Rightarrow> string \<Rightarrow> string \<Rightarrow> state \<Rightarrow> chan \<Rightarrow> gq" where
  "returnWith v funcName MessageId st resChan =
     (case chan_send resChan v of
        Done r \<Rightarrow> (case cleanup funcName MessageId st r of (st', r') \<Rightarrow> Finished st' r')
      | Panic \<Rightarrow> panicExit funcName MessageId st resChan
      | Block \<Rightarrow> Blocked st)"

text \<open>
  Lines 30 to 95, up to the written frame. \<open>uuids\<close> are the results of
  \<^verbatim>\<open>utils.GetUUID\<close>, \<open>marshal\<close> is \<^verbatim>\<open>json.Marshal\<close> (\<open>None\<close> for an error) and \<open>wr\<close> what
  the network makes of the write. A panic at line 40 comes before \<open>cleanup\<close> is
  deferred, so only \<open>recoverHandler\<close> runs. A panic inside \<^verbatim>\<open>WriteMessage\<close> leaves the
  write lock held, since the unlock is not deferred.
\<close>

definition GQueryFunc_send ::
  "string list \<Rightarrow> (Message \<Rightarrow> string option) \<Rightarrow> write_result \<Rightarrow>
   string \<Rightarrow> string \<Rightarrow> chan \<Rightarrow> state \<Rightarrow> gq option" where
  "GQueryFunc_send uuids marshal wr funcName param resChan st =
     (let st1 = (if actionData (client st) funcName = None then createActionMap funcName st else st)
      in case assignMessageId uuids funcName st1 of
           None \<Rightarrow> None
         | Some Block \<Rightarrow> Some (Blocked st1)
         | Some Panic \<Rightarrow>
             (case recoverHandler resChan of
                Some r \<Rightarrow> Some (Finished st1 r) | None \<Rightarrow> Some (Blocked st1))
         | Some (Done (MessageId, st2)) \<Rightarrow>
             (case marshal (Message funcName MessageId param) of
                None \<Rightarrow> Some (returnWith msg_marshal_failed funcName MessageId st2 resChan)
              | Some data \<Rightarrow>
                  if wsMu (client st2) then Some (Blocked st2)
                  else (case WriteMessage (clientWs (client st2)) wr of
                          WritePanic \<Rightarrow>
                            Some (panicExit funcName MessageId
                                    (st2\<lparr>client := (client st2)\<lparr>wsMu := True\<rparr>\<rparr>) resChan)
                        | WriteErr \<Rightarrow>
                            Some (returnWith msg_send_failed funcName MessageId
                                    (st2\<lparr>client := (client st2)\<lparr>isHealthy := False\<rparr>\<rparr>) resChan)
                        | WriteOk \<Rightarrow> Some (Sent st2 MessageId))))"

text \<open>Lines 99 to 103: the channel is looked up again; without one the call returns.\<close>

definition GQueryFunc_lookup :: "string \<Rightarrow> string \<Rightarrow> chan \<Rightarrow> state \<Rightarrow> gq" where
  "GQueryFunc_lookup funcName MessageId resChan st =
     (case readFromMap (client st) funcName MessageId of
        None \<Rightarrow> returnWith msg_no_channel funcName MessageId st resChan
      | Some resultChan \<Rightarrow> Waiting st MessageId resultChan)"

text \<open>
  Lines 104 to 118. \<open>timer\<close> says that the deadline has fired; \<open>pick\<close> is the choice Go
  makes when both cases are ready (True for the receive). With neither ready the call
  keeps waiting.
\<close>

definition onSuccess :: "Clients \<Rightarrow> Clients" where
  "onSuccess c = c\<lparr>failCount := 0, isHealthy := True\<rparr>"

definition onTimeout :: "Clients \<Rightarrow> Clients" where
  "onTimeout c =
     (let c1 = c\<lparr>failCount := failCount c + 1\<rparr>
      in if 3 \<le>s failCount c1 then c1\<lparr>isHealthy := False\<rparr> else c1)"

definition GQueryFunc_select ::
  "string \<Rightarrow> string \<Rightarrow> addr \<Rightarrow> bool \<Rightarrow> bool \<Rightarrow> chan \<Rightarrow> state \<Rightarrow> gq" where
  "GQueryFunc_select funcName MessageId resultChan timer pick resChan st =
     (case chan_recv (chans st resultChan) of
        Some (res, ch) \<Rightarrow>
          if timer \<and> \<not> pick then
            returnWith msg_timeout funcName MessageId (st\<lparr>client := onTimeout (client st)\<rparr>) resChan
          else
            returnWith res funcName MessageId
              (st\<lparr>chans := (chans st)(resultChan := ch), client := onSuccess (client st)\<rparr>) resChan
      | None \<Rightarrow>
          if timer then
            returnWith msg_timeout funcName MessageId (st\<lparr>client := onTimeout (client st)\<rparr>) resChan
          else Waiting st MessageId resultChan)"

text \<open>Lines 97 to 118 with no step of another goroutine between the lookup and the select.\<close>

definition GQueryFunc_wait :: "string \<Rightarrow> string \<Rightarrow> bool \<Rightarrow> bool \<Rightarrow> chan \<Rightarrow> state \<Rightarrow> gq" where
  "GQueryFunc_wait funcName MessageId timer pick resChan st =
     (case GQueryFunc_lookup funcName MessageId resChan st of
        Waiting st' mid resultChan \<Rightarrow> GQueryFunc_select funcName mid resultChan timer pick resChan st'
      | Finished st' r \<Rightarrow> Finished st' r
      | Sent st' mid \<Rightarrow> Sent st' mid
      | Blocked st' \<Rightarrow> Blocked st')"

section \<open>The registry and the connection handler\<close>

text \<open>
  The process-wide \<^verbatim>\<open>hlSyncMap\<close> maps the key \<^verbatim>\<open>group + "->" + clientId\<close> to a pointer
  to the session. It is an association list with the operations of \<^verbatim>\<open>sync.Map\<close>:
  \<open>map_of\<close> is \<^verbatim>\<open>Load\<close>, \<open>AList.update\<close> is \<^verbatim>\<open>Store\<close>, \<open>AList.delete\<close> is \<^verbatim>\<open>Delete\<close>,
  and \<^verbatim>\<open>Range\<close> visits the list, whose order stands for the order of that visit.
  \<open>clients\<close> is the store of the \<^verbatim>\<open>Clients\<close> objects, \<open>handlers\<close> says where the
  handler goroutine of each session stands, \<open>chanStore\<close> and \<open>nextChan\<close> are the
  channels of all sessions.
\<close>

type_synonym cref = nat

datatype handler_status = NotStarted | AwaitingAck | InLoop | Exited

record world =
  hlSyncMap :: "(string \<times> cref) list"
  clients :: "cref \<Rightarrow> Clients"
  handlers :: "cref \<Rightarrow> handler_status"
  nextClient :: cref
  chanStore :: "addr \<Rightarrow> chan"
  nextChan :: addr

definition registryKey :: "string \<Rightarrow> string \<Rightarrow> string" where
  "registryKey grp cid = grp @ ''->'' @ cid"

text \<open>The session \<open>r\<close> of a world as the state the session functions work on, and back.\<close>

definition view :: "cref \<Rightarrow> world \<Rightarrow> state" where
  "view r w = \<lparr>client = clients w r, chans = chanStore w, nextAddr = nextChan w\<rparr>"

definition store :: "cref \<Rightarrow> state \<Rightarrow> world \<Rightarrow> world" where
  "store r st w =
     w\<lparr>clients := (clients w)(r := client st), chanStore := chans st, nextChan := nextAddr st\<rparr>"

text \<open>
  Lines 103 to 132 of \<^verbatim>\<open>ws\<close>: a connection without group is refused, a missing client
  id is replaced by a fresh UUID, and after the upgrade the new session is stored in
  the registry, over any entry with the same key.
\<close>

definition ws_accept ::
  "string \<Rightarrow> string \<Rightarrow> string \<Rightarrow> string \<Rightarrow> 64 word \<Rightarrow> bool \<Rightarrow> world \<Rightarrow> world" where
  "ws_accept grp cid ip uuid now upgraded w =
     (if grp = '''' then w
      else let cid' = (if cid = '''' then uuid else cid)
           in if \<not> upgraded then w
              else let r = nextClient w
                   in w\<lparr>clients := (clients w)(r := NewClient grp cid' ip now),
                        hlSyncMap := AList.update (registryKey grp cid') r (hlSyncMap w),
                        handlers := (handlers w)(r := AwaitingAck),
                        nextClient := Suc r\<rparr>)"

text \<open>
  The deferred function of lines 122 to 128, run when the handler returns: close the
  connection and delete the key built from the handler's group and client id (the
  values the session was created with).
\<close>

definition ws_teardown :: "cref \<Rightarrow> world \<Rightarrow> world" where
  "ws_teardown r w =
     w\<lparr>clients := (clients w)(r := (clients w r)\<lparr>clientWs := ConnClosed\<rparr>),
       hlSyncMap := AList.delete (registryKey (clientGroup (clients w r)) (clientId (clients w r)))
                      (hlSyncMap w),
       handlers := (handlers w)(r := Exited)\<rparr>"

text \<open>Lines 133 to 138: the acknowledgement; when its write fails the handler returns.\<close>

definition ws_handshake :: "cref \<Rightarrow> write_result \<Rightarrow> world \<Rightarrow> world" where
  "ws_handshake r ack w =
     (if handlers w r = AwaitingAck then
        (case WriteMessage (clientWs (clients w r)) ack of
           WriteOk \<Rightarrow> w\<lparr>handlers := (handlers w)(r := InLoop)\<rparr>
         | WriteErr \<Rightarrow> ws_teardown r w
         | WritePanic \<Rightarrow> ws_teardown r w)
      else w)"

text \<open>
  One iteration of the loop of lines 170 to 207 for the session \<open>r\<close>: a read error
  leaves the loop and the handler returns. An iteration parked inside a send has not
  finished.
\<close>

definition ws_loop ::
  "(string \<Rightarrow> MessageResponse option) \<Rightarrow> (string \<Rightarrow> string list option) \<Rightarrow>
   cref \<Rightarrow> read_result \<Rightarrow> world \<Rightarrow> world" where
  "ws_loop unmarshalResp unmarshalActions r rd w =
     (if handlers w r = InLoop then
        (case ws_iteration unmarshalResp unmarshalActions rd (view r w) of
           Break \<Rightarrow> ws_teardown r w
         | Continue st' \<Rightarrow> store r st' w
         | StuckForever \<Rightarrow> w
         | ParkedOnFullSlot \<Rightarrow> w)
      else w)"

text \<open>\<^verbatim>\<open>kickClient\<close>: closing the connection is all it does to the session.\<close>

datatype http_status = OK200 | BadRequest400 | NotFound404

definition kickClient :: "string \<Rightarrow> string \<Rightarrow> world \<Rightarrow> http_status \<times> world" where
  "kickClient grp cid w =
     (if grp = '''' \<or> cid = '''' then (BadRequest400, w)
      else (case map_of (hlSyncMap w) (registryKey grp cid) of
              None \<Rightarrow> (NotFound404, w)
            | Some r \<Rightarrow>
                (OK200, w\<lparr>clients := (clients w)(r := (clients w r)\<lparr>clientWs := ConnClosed\<rparr>)\<rparr>)))"

section \<open>Choosing a session\<close>

text \<open>
  \<^verbatim>\<open>getRandomClient\<close> and \<^verbatim>\<open>getHealthyClient\<close> of \<^verbatim>\<open>core/engine.go\<close>. \<open>draw\<close> is
  the number the fresh random source yields, and \<^verbatim>\<open>r.Intn(n)\<close> reduces it modulo \<open>n\<close>.
\<close>

definition healthy :: "Clients \<Rightarrow> bool" where
  "healthy c = (isHealthy c \<and> failCount c <s 3)"

definition getHealthyClient :: "world \<Rightarrow> nat \<Rightarrow> string \<Rightarrow> string \<Rightarrow> cref option" where
  "getHealthyClient w draw grp excludeClientId =
     (let inGroup = filter (\<lambda>r. clientGroup (clients w r) = grp \<and>
                                \<not> (excludeClientId \<noteq> '''' \<and> clientId (clients w r) = excludeClientId))
                      (map snd (hlSyncMap w));
          healthyClients = filter (\<lambda>r. healthy (clients w r)) inGroup;
          unhealthyClients = filter (\<lambda>r. \<not> healthy (clients w r)) inGroup;
          candidates = (if healthyClients = [] then unhealthyClients else healthyClients)
      in if candidates = [] then None
         else Some (candidates ! (draw mod length candidates)))"

definition getRandomClient :: "world \<Rightarrow> nat \<Rightarrow> string \<Rightarrow> string \<Rightarrow> cref option" where
  "getRandomClient w draw grp cid =
     (if cid \<noteq> '''' then map_of (hlSyncMap w) (registryKey grp cid)
      else getHealthyClient w draw grp '''')"

section \<open>Runs of the program\<close>

text \<open>
  The steps that goroutines take on the shared world, one event each: the connection
  handler (accept, handshake, loop iteration), the kick, the heartbeat tick, the pong
  handler and the phases of a request.
\<close>

datatype event =
    Accept string string string string "64 word" bool
  | Handshake cref write_result
  | Read cref read_result
  | Kick string string
  | Heartbeat cref bool
  | Pong cref "64 word"
  | InvokeSend cref "string list" write_result string string chan
  | InvokeLookup cref string string chan
  | InvokeSelect cref string string addr bool bool chan

definition gq_store :: "cref \<Rightarrow> gq \<Rightarrow> world \<Rightarrow> world" where
  "gq_store r g w =
     (case g of
        Finished st res \<Rightarrow> store r st w
      | Sent st mid \<Rightarrow> store r st w
      | Waiting st mid a \<Rightarrow> store r st w
      | Blocked st \<Rightarrow> store r st w)"

fun step ::
  "(string \<Rightarrow> MessageResponse option) \<Rightarrow> (string \<Rightarrow> string list option) \<Rightarrow>
   (Message \<Rightarrow> string option) \<Rightarrow> event \<Rightarrow> world \<Rightarrow> world" where
  "step ur ua ms (Accept grp cid ip uuid now upgraded) w = ws_accept grp cid ip uuid now upgraded w"
| "step ur ua ms (Handshake r ack) w = ws_handshake r ack w"
| "step ur ua ms (Read r rd) w = ws_loop ur ua r rd w"
| "step ur ua ms (Kick grp cid) w = snd (kickClient grp cid w)"
| "step ur ua ms (Heartbeat r ok) w =
     (case heartbeatTick ok (clients w r) of
        Done c \<Rightarrow> w\<lparr>clients := (clients w)(r := c)\<rparr> | Panic \<Rightarrow> w | Block \<Rightarrow> w)"
| "step ur ua ms (Pong r now) w = w\<lparr>clients := (clients w)(r := pongHandler now (clients w r))\<rparr>"
| "step ur ua ms (InvokeSend r uuids wr funcName param resChan) w =
     (case GQueryFunc_send uuids ms wr funcName param resChan (view r w) of
        None \<Rightarrow> w | Some g \<Rightarrow> gq_store r g w)"
| "step ur ua ms (InvokeLookup r funcName mid resChan) w =
     gq_store r (GQueryFunc_lookup funcName mid resChan (view r w)) w"
| "step ur ua ms (InvokeSelect r funcName mid a timer pick resChan) w =
     gq_store r (GQueryFunc_select funcName mid a timer pick resChan (view r w)) w"

definition run ::
  "(string \<Rightarrow> MessageResponse option) \<Rightarrow> (string \<Rightarrow> string list option) \<Rightarrow>
   (Message \<Rightarrow> string option) \<Rightarrow> event list \<Rightarrow> world \<Rightarrow> world" where
  "run ur ua ms evs w = fold (step ur ua ms) evs w"

definition world0 :: world where
  "world0 = \<lparr>hlSyncMap = [], clients = (\<lambda>r. NewClient [] [] [] 0),
             handlers = (\<lambda>r. NotStarted), nextClient = 0,
             chanStore = (\<lambda>a. make_chan 1), nextChan = 0\<rparr>"

section \<open>The id loop, step by step\<close>

text \<open>
  The loop of lines 36 to 45 as the steps one goroutine takes, so that the steps of two
  calls can be interleaved: drawing an id and testing it under the read lock (lines 37
  and 38), then inserting the channel under the write lock (lines 39 to 41). Between
  the two steps no lock is held. \<open>u\<close> is the id \<^verbatim>\<open>utils.GetUUID\<close> returns to a call that
  is drawing.
\<close>

datatype assign_pc = Drawing | Checked string | Assigned string

fun assign_step :: "string \<Rightarrow> string \<Rightarrow> assign_pc \<Rightarrow> state \<Rightarrow> assign_pc \<times> state" where
  "assign_step funcName u Drawing st =
     (if readFromMap (client st) funcName u = None then (Checked u, st) else (Drawing, st))"
| "assign_step funcName u (Checked mid) st =
     (case insertSlot funcName mid st of
        Done st' \<Rightarrow> (Assigned mid, st') | Panic \<Rightarrow> (Checked mid, st) | Block \<Rightarrow> (Checked mid, st))"
| "assign_step funcName u (Assigned mid) st = (Assigned mid, st)"

text \<open>The steps of one call with no other call in between: the loop itself.\<close>

fun assign_alone :: "string \<Rightarrow> string list \<Rightarrow> state \<Rightarrow> assign_pc \<times> state" where
  "assign_alone funcName [] st = (Drawing, st)"
| "assign_alone funcName (u # us) st =
     (case assign_step funcName u Drawing st of
        (Checked mid, st1) \<Rightarrow> assign_step funcName u (Checked mid) st1
      | (Drawing, st1) \<Rightarrow> assign_alone funcName us st1
      | (Assigned mid, st1) \<Rightarrow> (Assigned mid, st1))"

section \<open>Notions used in the proofs\<close>

text \<open>
  What no step of a request, of the heartbeat or of the frame handling changes in a
  session: its group, its id and the state of its connection. \<open>gq_states\<close> is the
  session state a call has reached.
\<close>

definition ident :: "Clients \<Rightarrow> string \<times> string \<times> conn" where
  "ident c = (clientGroup c, clientId c, clientWs c)"

fun gq_states :: "gq \<Rightarrow> state set" where
  "gq_states (Finished st r) = {st}"
| "gq_states (Sent st mid) = {st}"
| "gq_states (Waiting st mid a) = {st}"
| "gq_states (Blocked st) = {st}"

text \<open>
  The invariant of the registry: every entry refers to a session that was created,
  whose handler has not returned, under the key made of that session's group and id;
  a session whose handler has returned has a closed connection; sessions not yet
  created have no handler.
\<close>

definition registry_inv :: "world \<Rightarrow> bool" where
  "registry_inv w =
     ((\<forall>(k, r) \<in> set (hlSyncMap w).
         r < nextClient w \<and> (handlers w r = AwaitingAck \<or> handlers w r = InLoop) \<and>
         k = registryKey (clientGroup (clients w r)) (clientId (clients w r))) \<and>
      (\<forall>r. (handlers w r = Exited \<longrightarrow> clientWs (clients w r) = ConnClosed) \<and>
           (nextClient w \<le> r \<longrightarrow> handlers w r = NotStarted)))"

text \<open>The sessions of a group, in the order \<^verbatim>\<open>Range\<close> visits them.\<close>

definition ofGroup :: "world \<Rightarrow> string \<Rightarrow> cref list" where
  "ofGroup w grp = filter (\<lambda>r. clientGroup (clients w r) = grp) (map snd (hlSyncMap w))"

text \<open>The one kind of step that changes \<open>failCount\<close>: the select of a request.\<close>

fun is_select :: "event \<Rightarrow> bool" where
  "is_select (InvokeSelect r f mid a timer pick res) = True"
| "is_select e = False"

section \<open>Concrete sessions and inputs\<close>

text \<open>
  A session as \<^verbatim>\<open>NewClient\<close> makes it, an encoder that succeeds, and decoders that
  know one capability announcement.
\<close>

definition ex_state :: state where
  "ex_state = \<lparr>client = NewClient ''g1'' ''A'' ''10.0.0.1'' 1000,
               chans = (\<lambda>a. make_chan 1), nextAddr = 0\<rparr>"

definition ex_marshal :: "Message \<Rightarrow> string option" where
  "ex_marshal m = Some (req_action m @ '' '' @ req_message_id m @ '' '' @ req_param m)"

definition ex_unmarshalResp :: "string \<Rightarrow> MessageResponse option" where
  "ex_unmarshalResp message =
     (if message = ''announce'' then Some (MessageResponse ''_registerActions'' '''' ''[dom,cookie]'')
      else None)"

definition ex_unmarshalActions :: "string \<Rightarrow> string list option" where
  "ex_unmarshalActions msg = (if msg = ''[dom,cookie]'' then Some [''dom'', ''cookie''] else None)"

definition sessA :: Clients where
  "sessA = (NewClient ''g1'' ''A'' ''10.0.0.1'' 1000)\<lparr>failCount := 2\<rparr>"

text \<open>
  Worlds after one connection was accepted and acknowledged: the agent \<open>A\<close> of group
  \<open>g1\<close>, and an agent \<open>c\<close> whose group name \<open>a->b\<close> contains the separator of the
  registry key.
\<close>

definition world_g1 :: world where
  "world_g1 = ws_handshake 0 WriteOk (ws_accept ''g1'' ''A'' ''10.0.0.1'' ''u1'' 1000 True world0)"

definition world_ab :: world where
  "world_ab = ws_handshake 0 WriteOk (ws_accept ''a->b'' ''c'' ''10.0.0.2'' ''u2'' 1000 True world0)"

text \<open>
  The states of one call for action \<open>x\<close> on the session \<open>A\<close> of group \<open>g1\<close>, with the
  failure count \<open>n\<close> and the health flag \<open>h\<close> the session had before the call:
  \<open>ex_with\<close> before the call, \<open>ex_sent\<close> once the slot \<open>id1\<close> is in the table and the
  frame is written, \<open>ex_replied\<close> once the read loop has put \<open>reply\<close> into the slot,
  and \<open>ex_done\<close> after the call has returned, the slot removed and its channel closed
  with \<open>left\<close> still in its buffer.
\<close>

definition ex_with :: "64 word \<Rightarrow> bool \<Rightarrow> state" where
  "ex_with n h =
     \<lparr>client = (NewClient ''g1'' ''A'' ''10.0.0.1'' 1000)\<lparr>failCount := n, isHealthy := h\<rparr>,
      chans = (\<lambda>a. make_chan 1), nextAddr = 0\<rparr>"

definition ex_sent :: "64 word \<Rightarrow> bool \<Rightarrow> state" where
  "ex_sent n h =
     \<lparr>client = (NewClient ''g1'' ''A'' ''10.0.0.1'' 1000)
                 \<lparr>actionData := [''x'' \<mapsto> [''id1'' \<mapsto> 0]], failCount := n, isHealthy := h\<rparr>,
      chans = (\<lambda>a. make_chan 1)(0 := make_chan 1), nextAddr = 1\<rparr>"

definition ex_replied :: "64 word \<Rightarrow> bool \<Rightarrow> state" where
  "ex_replied n h =
     (ex_sent n h)\<lparr>chans := (\<lambda>a. make_chan 1)(0 := \<lparr>buf = [''reply''], cap = 1, closed = False\<rparr>)\<rparr>"

definition ex_done :: "64 word \<Rightarrow> bool \<Rightarrow> string list \<Rightarrow> state" where
  "ex_done n h left =
     \<lparr>client = (NewClient ''g1'' ''A'' ''10.0.0.1'' 1000)
                 \<lparr>actionData := [''x'' \<mapsto> Map.empty], failCount := n, isHealthy := h\<rparr>,
      chans = (\<lambda>a. make_chan 1)(0 := \<lparr>buf = left, cap = 1, closed = True\<rparr>), nextAddr = 1\<rparr>"

section \<open>Facts about one request\<close>

subsection \<open>The id loop\<close>

text \<open>
  An id the loop settles on was free when it was tested, every id drawn before it was
  taken, and the channel is inserted under it at the next free address; the loop ends
  as soon as one drawn id is free. The steps of one call, run alone, are the loop. Two
  calls that test the same free id before either inserts both insert.
\<close>

lemma insertSlot_Done:
  assumes "insertSlot f mid st = Done st'"
  shows "readFromMap (client st') f mid = Some (nextAddr st)"
    and "chans st' = (chans st)(nextAddr st := make_chan 1)"
    and "nextAddr st' = Suc (nextAddr st)"
    and "\<exists>m. actionData (client st) f = Some m \<and>
           client st' = (client st)\<lparr>actionData := (actionData (client st))(f \<mapsto> m(mid \<mapsto> nextAddr st))\<rparr>"
  using assms by (auto simp: insertSlot_def readFromMap_def split: option.splits)

lemma assignMessageId_Done:
  "assignMessageId uuids f st = Some (Done (mid, st')) \<Longrightarrow>
     insertSlot f mid st = Done st' \<and> readFromMap (client st) f mid = None \<and> mid \<in> set uuids"
  by (induction uuids) (auto split: if_splits go.splits)

lemma assignMessageId_retries:
  "assignMessageId uuids f st = Some (Done (mid, st')) \<Longrightarrow>
     \<exists>pre post. uuids = pre @ mid # post \<and>
       (\<forall>u \<in> set pre. readFromMap (client st) f u \<noteq> None) \<and>
       readFromMap (client st) f mid = None"
proof (induction uuids)
  case Nil
  then show ?case by simp
next
  case (Cons u us)
  show ?case
  proof (cases "readFromMap (client st) f u = None")
    case True
    with Cons.prems have "u = mid" by (auto split: go.splits)
    with True have "u # us = [] @ mid # us \<and> (\<forall>u \<in> set []. readFromMap (client st) f u \<noteq> None) \<and>
       readFromMap (client st) f mid = None" by simp
    then show ?thesis by blast
  next
    case False
    with Cons.prems have "assignMessageId us f st = Some (Done (mid, st'))" by simp
    from Cons.IH [OF this] obtain pre post where
      "us = pre @ mid # post" "\<forall>u \<in> set pre. readFromMap (client st) f u \<noteq> None"
      "readFromMap (client st) f mid = None" by blast
    with False have "u # us = (u # pre) @ mid # post \<and>
       (\<forall>u \<in> set (u # pre). readFromMap (client st) f u \<noteq> None) \<and>
       readFromMap (client st) f mid = None" by simp
    then show ?thesis by blast
  qed
qed

lemma assignMessageId_terminates:
  "\<exists>u \<in> set uuids. readFromMap (client st) f u = None \<Longrightarrow> assignMessageId uuids f st \<noteq> None"
  by (induction uuids) (auto split: go.splits)

lemma assign_alone_loop:
  "assign_alone f uuids st = (Assigned mid, st') \<longleftrightarrow>
   assignMessageId uuids f st = Some (Done (mid, st'))"
  by (induction uuids) (auto split: go.splits)

lemma interleaved_inserts:
  assumes "readFromMap (client st) f u = None" and "actionData (client st) f \<noteq> None"
  shows "\<exists>stA stB.
           assign_step f u Drawing st = (Checked u, st) \<and>
           assign_step f u (Checked u) st = (Assigned u, stA) \<and>
           assign_step f u (Checked u) stA = (Assigned u, stB) \<and>
           readFromMap (client stA) f u = Some (nextAddr st) \<and>
           readFromMap (client stB) f u = Some (Suc (nextAddr st))"
  using assms by (auto simp: insertSlot_def readFromMap_def)

subsection \<open>The deferred functions\<close>

text \<open>
  The cleanup removes the entry of the call, changes neither \<open>failCount\<close> nor
  \<open>isHealthy\<close>, and leaves \<open>resChan\<close> closed. With the result channel every caller
  passes, a return delivers its value and closes the channel; a panic after line 47
  leaves the channel closed and empty.
\<close>

lemma cleanup_removes: "readFromMap (client (fst (cleanup f mid st r))) f mid = None"
  by (auto simp: cleanup_def readFromMap_def Let_def split: option.splits)

lemma cleanup_health:
  "failCount (client (fst (cleanup f mid st r))) = failCount (client st)"
  "isHealthy (client (fst (cleanup f mid st r))) = isHealthy (client st)"
  by (auto simp: cleanup_def Let_def split: option.splits)

lemma cleanup_resChan:
  "snd (cleanup f mid st r) = (if closed r then r else r\<lparr>closed := True\<rparr>)"
  by (auto simp: cleanup_def Let_def chan_close_def split: option.splits)

lemma cleanup_absent:
  "readFromMap (client st) f mid = None \<Longrightarrow> fst (cleanup f mid st r) = st"
  by (auto simp: cleanup_def readFromMap_def Let_def split: option.splits)

lemma returnWith_fresh:
  "returnWith v f mid st (make_chan (Suc 0)) =
     Finished (fst (cleanup f mid st \<lparr>buf = [v], cap = Suc 0, closed = False\<rparr>))
              \<lparr>buf = [v], cap = Suc 0, closed = True\<rparr>"
proof -
  have "snd (cleanup f mid st \<lparr>buf = [v], cap = Suc 0, closed = False\<rparr>) =
          \<lparr>buf = [v], cap = Suc 0, closed = True\<rparr>"
    by (simp add: cleanup_resChan)
  then show ?thesis
    by (simp add: returnWith_def chan_send_def make_chan_def case_prod_beta)
qed

lemma panicExit_fresh:
  "panicExit f mid st (make_chan (Suc 0)) =
     Finished (fst (cleanup f mid st (make_chan (Suc 0)))) \<lparr>buf = [], cap = Suc 0, closed = True\<rparr>"
proof -
  have "snd (cleanup f mid st (make_chan (Suc 0))) = \<lparr>buf = [], cap = Suc 0, closed = True\<rparr>"
    by (simp add: cleanup_resChan make_chan_def)
  then show ?thesis
    by (simp add: panicExit_def recoverHandler_def chan_send_def case_prod_beta)
qed

subsection \<open>The phases of a call\<close>


lemma onTimeout_fields:
  "failCount (onTimeout c) = failCount c + 1"
  "isHealthy (onTimeout c) = (if 3 \<le>s failCount c + 1 then False else isHealthy c)"
  "actionData (onTimeout c) = actionData c"
  by (auto simp: onTimeout_def Let_def)

lemma readFromMap_onTimeout [simp]: "readFromMap (onTimeout c) f i = readFromMap c f i"
  by (simp add: readFromMap_def onTimeout_fields)

lemma select_outcomes:
  "buf (chans st a) = v # vs \<Longrightarrow> \<not> (timer \<and> \<not> pick) \<Longrightarrow>
     \<exists>st'. GQueryFunc_select f mid a timer pick (make_chan 1) st =
             Finished st' \<lparr>buf = [v], cap = 1, closed = True\<rparr> \<and>
           failCount (client st') = 0 \<and> isHealthy (client st')"
  "buf (chans st a) = [] \<Longrightarrow> \<not> closed (chans st a) \<Longrightarrow>
     \<exists>st'. GQueryFunc_select f mid a True pick (make_chan 1) st =
             Finished st' \<lparr>buf = [msg_timeout], cap = 1, closed = True\<rparr> \<and>
           failCount (client st') = failCount (client st) + 1 \<and>
           isHealthy (client st') = (if 3 \<le>s failCount (client st) + 1 then False else isHealthy (client st))"
  by (auto simp: GQueryFunc_select_def chan_recv_def returnWith_fresh cleanup_health
      onSuccess_def onTimeout_fields)

lemma select_exits:
  assumes "GQueryFunc_select f mid a timer pick (make_chan 1) st = Finished st' r"
  shows "closed r \<and> length (buf r) = 1 \<and> readFromMap (client st') f mid = None"
  using assms
  by (auto simp: GQueryFunc_select_def returnWith_fresh cleanup_removes
      split: option.splits if_splits)

lemma wait_exits:
  assumes "GQueryFunc_wait f mid timer pick (make_chan 1) st = Finished st' r"
  shows "closed r \<and> length (buf r) = 1 \<and> readFromMap (client st') f mid = None"
proof (cases "readFromMap (client st) f mid")
  case None
  with assms show ?thesis
    by (auto simp: GQueryFunc_wait_def GQueryFunc_lookup_def returnWith_fresh cleanup_removes)
next
  case (Some a)
  with assms have "GQueryFunc_select f mid a timer pick (make_chan 1) st = Finished st' r"
    by (simp add: GQueryFunc_wait_def GQueryFunc_lookup_def)
  then show ?thesis by (rule select_exits)
qed

lemma send_exits:
  assumes "GQueryFunc_send uuids ms wr f p (make_chan 1) st = Some (Finished st' r)"
  shows "closed r \<and>
         (buf r = [msg_marshal_failed] \<or> buf r = [msg_send_failed] \<or>
          (buf r = [] \<and> WriteMessage (clientWs (client st)) wr = WritePanic)) \<and>
         (\<exists>mid \<in> set uuids. readFromMap (client st) f mid = None \<and>
                             readFromMap (client st') f mid = None)"
proof -
  define st0 where "st0 = (if actionData (client st) f = None then createActionMap f st else st)"
  have a0: "actionData (client st0) f \<noteq> None"
    by (auto simp: st0_def createActionMap_def)
  have noPanic: "assignMessageId uuids f st0 \<noteq> Some Panic" "assignMessageId uuids f st0 \<noteq> Some Block"
    using a0 by (induction uuids) (auto simp: insertSlot_def split: option.splits)
  from assms noPanic obtain mid st2 where
    a: "assignMessageId uuids f st0 = Some (Done (mid, st2))"
    by (cases "assignMessageId uuids f st0")
       (auto simp: GQueryFunc_send_def st0_def [symmetric] Let_def split: go.splits)
  from assignMessageId_Done [OF a] have i: "insertSlot f mid st0 = Done st2"
    and n: "readFromMap (client st0) f mid = None" and m: "mid \<in> set uuids" by auto
  have n': "readFromMap (client st) f mid = None"
    using n by (auto simp: st0_def createActionMap_def readFromMap_def split: if_splits option.splits)
  have ws: "clientWs (client st2) = clientWs (client st)"
    using insertSlot_Done(4) [OF i] by (auto simp: st0_def createActionMap_def)
  from assms a ws have
    "closed r \<and>
       (buf r = [msg_marshal_failed] \<or> buf r = [msg_send_failed] \<or>
        (buf r = [] \<and> WriteMessage (clientWs (client st)) wr = WritePanic)) \<and>
       readFromMap (client st') f mid = None"
    by (auto simp: GQueryFunc_send_def st0_def [symmetric] Let_def returnWith_fresh panicExit_fresh
        cleanup_removes split: option.splits if_splits write_result.splits)
  with n' m show ?thesis by blast
qed

lemma ex_send:
  "\<exists>st1. GQueryFunc_send [''id1''] ex_marshal WriteOk ''x'' ''p'' (make_chan 1) ex_state =
          Some (Sent st1 ''id1'')"
  by (simp add: GQueryFunc_send_def ex_state_def NewClient_def createActionMap_def readFromMap_def
      insertSlot_def ex_marshal_def WriteMessage_def)

subsection \<open>Deliveries by the read loop\<close>

text \<open>
  A frame for which the table has no channel is dropped. A frame for a waiting call
  is put into its channel. A send on a closed channel of the table is recovered; a
  send for an entry that is gone blocks, and that is what a delivery finds once the
  call has returned. An iteration in which nothing runs between the test of line 197
  and the send of line 200 never blocks that way.
\<close>

lemma frame_without_slot_dropped:
  assumes "readFromMap (client st) (resp_action mr) (resp_message_id mr) = None"
    and "\<not> (resp_action mr = ''_registerActions'' \<and> resp_message_id mr = '''')"
  shows "handleResponse ua mr st = Continue st"
  using assms by (auto simp: handleResponse_def Let_def)

lemma ws_iteration_delivers:
  assumes "ReadMessage (clientWs (client st)) rd = ReadMsg message"
    and "unmarshalResp message = Some (MessageResponse f mid v)"
    and "\<not> (f = ''_registerActions'' \<and> mid = '''')"
    and "readFromMap (client st) f mid = Some a"
    and "chans st a = make_chan 1"
  shows "ws_iteration unmarshalResp unmarshalActions rd st =
           Continue (st\<lparr>chans := (chans st)(a := \<lparr>buf = [v], cap = 1, closed = False\<rparr>)\<rparr>) \<and>
         writeToMap st f mid v =
           Delivered (st\<lparr>chans := (chans st)(a := \<lparr>buf = [v], cap = 1, closed = False\<rparr>)\<rparr>)"
  using assms
  by (auto simp: ws_iteration_def handleResponse_def writeToMap_def chan_send_def make_chan_def Let_def)

lemma writeToMap_closed:
  assumes "readFromMap (client st) f mid = Some a" and "closed (chans st a)"
  shows "writeToMap st f mid msg = Recovered st"
  using assms by (simp add: writeToMap_def chan_send_def)

lemma writeToMap_missing:
  "readFromMap (client st) f mid = None \<Longrightarrow> writeToMap st f mid msg = BlockedNil"
  by (simp add: writeToMap_def)

lemma delivery_after_exit_blocks:
  assumes "GQueryFunc_wait f mid timer pick (make_chan 1) st = Finished st' r"
  shows "writeToMap st' f mid msg = BlockedNil"
  using wait_exits [OF assms] by (simp add: writeToMap_missing)

lemma ws_iteration_not_stuck: "ws_iteration ur ua rd st \<noteq> StuckForever"
  by (auto simp: ws_iteration_def handleResponse_def writeToMap_def Let_def
      split: read_result.splits option.splits wtm.splits go.splits)

subsection \<open>What the steps of a session leave alone\<close>

text \<open>
  No phase of a call but the select changes \<open>failCount\<close>; the frame handling changes
  neither \<open>failCount\<close> nor \<open>isHealthy\<close>; and none of them changes the group, the id
  or the connection of the session.
\<close>

lemma cleanup_failCount: "failCount (client (fst (cleanup f mid st r))) = failCount (client st)"
  by (rule cleanup_health)

lemma panicExit_failCount:
  "st' \<in> gq_states (panicExit f mid st r) \<Longrightarrow> failCount (client st') = failCount (client st)"
  using cleanup_failCount [of f mid st r]
  by (auto simp: panicExit_def case_prod_beta split: option.splits)

lemma returnWith_failCount:
  "st' \<in> gq_states (returnWith v f mid st r) \<Longrightarrow> failCount (client st') = failCount (client st)"
  using cleanup_failCount [of f mid st] panicExit_failCount [of st' f mid st r]
  by (auto simp: returnWith_def case_prod_beta split: go.splits)

lemma send_failCount:
  assumes "GQueryFunc_send uuids ms wr f p r st = Some g" and "st' \<in> gq_states g"
  shows "failCount (client st') = failCount (client st)"
proof -
  define st0 where "st0 = (if actionData (client st) f = None then createActionMap f st else st)"
  have i0: "failCount (client st0) = failCount (client st)"
    by (simp add: st0_def createActionMap_def)
  show ?thesis
  proof (cases "assignMessageId uuids f st0")
    case None
    with assms show ?thesis by (simp add: GQueryFunc_send_def st0_def)
  next
    case (Some a)
    show ?thesis
    proof (cases a)
      case (Done p2)
      obtain mid st2 where p2: "p2 = (mid, st2)" by (cases p2)
      from assignMessageId_Done Some Done p2 have "insertSlot f mid st0 = Done st2" by blast
      from insertSlot_Done(4) [OF this] have i2: "failCount (client st2) = failCount (client st0)"
        by auto
      from assms Some Done p2 i0 i2 show ?thesis
        by (auto simp: GQueryFunc_send_def st0_def [symmetric] Let_def
            split: option.splits if_splits write_result.splits
            dest!: returnWith_failCount panicExit_failCount)
    next
      case Panic
      with assms Some i0 show ?thesis
        by (auto simp: GQueryFunc_send_def st0_def [symmetric] Let_def split: option.splits)
    next
      case Block
      with assms Some i0 show ?thesis
        by (auto simp: GQueryFunc_send_def st0_def [symmetric] Let_def)
    qed
  qed
qed

lemma lookup_failCount:
  "st' \<in> gq_states (GQueryFunc_lookup f mid r st) \<Longrightarrow> failCount (client st') = failCount (client st)"
  by (auto simp: GQueryFunc_lookup_def split: option.splits dest!: returnWith_failCount)

lemma ws_iteration_health:
  "ws_iteration ur ua rd st = Continue st' \<Longrightarrow>
     failCount (client st') = failCount (client st) \<and> isHealthy (client st') = isHealthy (client st)"
  by (auto simp: ws_iteration_def handleResponse_def writeToMap_def Let_def
      split: read_result.splits option.splits if_splits wtm.splits go.splits)

lemma panicExit_isHealthy:
  "st' \<in> gq_states (panicExit f mid st r) \<Longrightarrow> isHealthy (client st') = isHealthy (client st)"
  using cleanup_health(2) [of f mid st r]
  by (auto simp: panicExit_def case_prod_beta split: option.splits)

lemma returnWith_isHealthy:
  "st' \<in> gq_states (returnWith v f mid st r) \<Longrightarrow> isHealthy (client st') = isHealthy (client st)"
  using cleanup_health(2) [of f mid st] panicExit_isHealthy [of st' f mid st r]
  by (auto simp: returnWith_def case_prod_beta split: go.splits)

lemma select_failCount:
  assumes "st' \<in> gq_states (GQueryFunc_select f mid a timer pick res st)"
  shows "failCount (client st') = failCount (client st) \<or>
         failCount (client st') = failCount (client st) + 1 \<or>
         (failCount (client st') = 0 \<and> isHealthy (client st') \<and>
          chan_recv (chans st a) \<noteq> None \<and> \<not> (timer \<and> \<not> pick))"
proof (cases "chan_recv (chans st a)")
  case None
  with assms show ?thesis
    by (auto simp: GQueryFunc_select_def onTimeout_fields split: if_splits
        dest!: returnWith_failCount)
next
  case (Some p)
  obtain v ch where p: "p = (v, ch)" by (cases p)
  show ?thesis
  proof (cases "timer \<and> \<not> pick")
    case True
    with assms Some p show ?thesis
      by (auto simp: GQueryFunc_select_def onTimeout_fields dest!: returnWith_failCount)
  next
    case False
    with assms Some p have
      "st' \<in> gq_states (returnWith v f mid
         (st\<lparr>chans := (chans st)(a := ch), client := onSuccess (client st)\<rparr>) res)"
      by (auto simp: GQueryFunc_select_def)
    from returnWith_failCount [OF this] returnWith_isHealthy [OF this] False Some
    show ?thesis by (simp add: onSuccess_def)
  qed
qed

lemma cleanup_ident: "ident (client (fst (cleanup f mid st r))) = ident (client st)"
  by (auto simp: cleanup_def Let_def ident_def split: option.splits)

lemma panicExit_ident:
  "st' \<in> gq_states (panicExit f mid st r) \<Longrightarrow> ident (client st') = ident (client st)"
  using cleanup_ident [of f mid st r]
  by (auto simp: panicExit_def case_prod_beta split: option.splits)

lemma returnWith_ident:
  "st' \<in> gq_states (returnWith v f mid st r) \<Longrightarrow> ident (client st') = ident (client st)"
  using cleanup_ident [of f mid st] panicExit_ident [of st' f mid st r]
  by (auto simp: returnWith_def case_prod_beta split: go.splits)

lemma insertSlot_ident: "insertSlot f mid st = Done st' \<Longrightarrow> ident (client st') = ident (client st)"
  by (auto simp: insertSlot_def ident_def split: option.splits)

lemma send_ident:
  assumes "GQueryFunc_send uuids ms wr f p r st = Some g" and "st' \<in> gq_states g"
  shows "ident (client st') = ident (client st)"
proof -
  define st0 where "st0 = (if actionData (client st) f = None then createActionMap f st else st)"
  have i0: "ident (client st0) = ident (client st)"
    by (simp add: st0_def createActionMap_def ident_def)
  show ?thesis
  proof (cases "assignMessageId uuids f st0")
    case None
    with assms show ?thesis by (simp add: GQueryFunc_send_def st0_def)
  next
    case (Some a)
    show ?thesis
    proof (cases a)
      case (Done p2)
      obtain mid st2 where p2: "p2 = (mid, st2)" by (cases p2)
      from assignMessageId_Done Some Done p2 have "insertSlot f mid st0 = Done st2" by blast
      then have i2: "ident (client st2) = ident (client st0)" by (rule insertSlot_ident)
      have iw: "ident (client (st2\<lparr>client := (client st2)\<lparr>wsMu := True\<rparr>\<rparr>)) = ident (client st2)"
        "ident (client (st2\<lparr>client := (client st2)\<lparr>isHealthy := False\<rparr>\<rparr>)) = ident (client st2)"
        by (simp_all add: ident_def)
      from assms Some Done p2 i0 i2 iw show ?thesis
        by (auto simp: GQueryFunc_send_def st0_def [symmetric] Let_def
            split: option.splits if_splits write_result.splits
            dest!: returnWith_ident panicExit_ident)
    next
      case Panic
      with assms Some i0 show ?thesis
        by (auto simp: GQueryFunc_send_def st0_def [symmetric] Let_def split: option.splits)
    next
      case Block
      with assms Some i0 show ?thesis
        by (auto simp: GQueryFunc_send_def st0_def [symmetric] Let_def)
    qed
  qed
qed

lemma lookup_ident:
  "st' \<in> gq_states (GQueryFunc_lookup f mid r st) \<Longrightarrow> ident (client st') = ident (client st)"
  by (auto simp: GQueryFunc_lookup_def split: option.splits dest!: returnWith_ident)

lemma select_ident:
  "st' \<in> gq_states (GQueryFunc_select f mid a timer pick r st) \<Longrightarrow> ident (client st') = ident (client st)"
  by (auto simp: GQueryFunc_select_def onTimeout_def onSuccess_def Let_def ident_def
      split: option.splits if_splits dest!: returnWith_ident)

lemma ws_iteration_ident:
  "ws_iteration ur ua rd st = Continue st' \<Longrightarrow> ident (client st') = ident (client st)"
  by (auto simp: ws_iteration_def handleResponse_def writeToMap_def Let_def ident_def
      split: read_result.splits option.splits if_splits wtm.splits go.splits)

section \<open>Facts about the registry\<close>

text \<open>
  The invariant of the registry holds in the empty world and is kept by every step,
  so it holds in every world the program reaches.
\<close>

lemma world_g1_eval:
  "hlSyncMap world_g1 = [(''g1->A'', 0)]"
  "handlers world_g1 0 = InLoop"
  "clients world_g1 0 = NewClient ''g1'' ''A'' ''10.0.0.1'' 1000"
  by (simp_all add: world_g1_def ws_handshake_def ws_accept_def world0_def registryKey_def
      WriteMessage_def NewClient_def Let_def)

lemma set_update_subset: "set (AList.update k v al) \<subseteq> insert (k, v) (set al)"
  by (induction al) auto

lemma set_delete: "set (AList.delete k al) = {p \<in> set al. fst p \<noteq> k}"
  by (auto simp: AList.delete_eq)

lemma inv_clients_upd:
  assumes "registry_inv w" and "clientGroup c = clientGroup (clients w r)"
    and "clientId c = clientId (clients w r)"
    and "clientWs (clients w r) = ConnClosed \<longrightarrow> clientWs c = ConnClosed"
  shows "registry_inv (w\<lparr>clients := (clients w)(r := c)\<rparr>)"
  using assms by (auto simp: registry_inv_def)

lemma inv_store:
  assumes "registry_inv w" and "ident (client st) = ident (clients w r)"
  shows "registry_inv (store r st w)"
  using assms by (auto simp: registry_inv_def ident_def store_def)

lemma inv_teardown:
  assumes "registry_inv w" and "handlers w r \<noteq> NotStarted"
  shows "registry_inv (ws_teardown r w)"
  using assms by (auto simp: registry_inv_def ws_teardown_def set_delete)

lemma inv_accept:
  assumes "registry_inv w"
  shows "registry_inv (ws_accept grp cid ip uuid now upgraded w)"
proof -
  have "registry_inv (w\<lparr>clients := (clients w)(nextClient w := NewClient grp c ip now),
          hlSyncMap := AList.update (registryKey grp c) (nextClient w) (hlSyncMap w),
          handlers := (handlers w)(nextClient w := AwaitingAck),
          nextClient := Suc (nextClient w)\<rparr>)" for c
    using assms set_update_subset [of "registryKey grp c" "nextClient w" "hlSyncMap w"]
    by (fastforce simp: registry_inv_def NewClient_def)
  with assms show ?thesis by (simp add: ws_accept_def Let_def)
qed

lemma inv_handlers_live:
  assumes "registry_inv w" and "h = AwaitingAck \<or> h = InLoop" and "handlers w r \<noteq> NotStarted"
  shows "registry_inv (w\<lparr>handlers := (handlers w)(r := h)\<rparr>)"
  using assms by (auto simp: registry_inv_def)

lemma inv_handshake:
  assumes "registry_inv w"
  shows "registry_inv (ws_handshake r ack w)"
  using assms inv_teardown [OF assms, of r] inv_handlers_live [OF assms, of InLoop r]
  by (auto simp: ws_handshake_def split: write_result.splits)

lemma view_client [simp]: "client (view r w) = clients w r"
  by (simp add: view_def)

lemma inv_loop:
  assumes "registry_inv w"
  shows "registry_inv (ws_loop ur ua r rd w)"
proof (cases "ws_iteration ur ua rd (view r w)")
  case (Continue st')
  from ws_iteration_ident [OF this] have "ident (client st') = ident (clients w r)" by simp
  from inv_store [OF assms this] Continue assms show ?thesis by (simp add: ws_loop_def)
qed (use assms inv_teardown [OF assms, of r] in \<open>auto simp: ws_loop_def\<close>)

lemma inv_kick:
  assumes "registry_inv w"
  shows "registry_inv (snd (kickClient grp cid w))"
proof -
  have "registry_inv (w\<lparr>clients := (clients w)(r := (clients w r)\<lparr>clientWs := ConnClosed\<rparr>)\<rparr>)" for r
    by (rule inv_clients_upd [OF assms]) simp_all
  with assms show ?thesis by (simp add: kickClient_def split: option.splits)
qed

lemma inv_gq_store:
  assumes "registry_inv w" and "\<And>st'. st' \<in> gq_states g \<Longrightarrow> ident (client st') = ident (clients w r)"
  shows "registry_inv (gq_store r g w)"
  using assms by (cases g) (auto simp: gq_store_def intro: inv_store)

lemma inv_step:
  assumes "registry_inv w"
  shows "registry_inv (step ur ua ms e w)"
proof (cases e)
  case (Accept grp cid ip uuid now upgraded)
  with inv_accept [OF assms] show ?thesis by simp
next
  case (Handshake r ack)
  with inv_handshake [OF assms] show ?thesis by simp
next
  case (Read r rd)
  with inv_loop [OF assms] show ?thesis by simp
next
  case (Kick grp cid)
  with inv_kick [OF assms] show ?thesis by simp
next
  case (Heartbeat r ok)
  have "registry_inv (w\<lparr>clients := (clients w)(r := c)\<rparr>)" if "heartbeatTick ok (clients w r) = Done c" for c
    using that by (intro inv_clients_upd [OF assms]) (auto simp: heartbeatTick_def split: if_splits)
  with Heartbeat assms show ?thesis by (simp split: go.splits)
next
  case (Pong r now)
  have "registry_inv (w\<lparr>clients := (clients w)(r := pongHandler now (clients w r))\<rparr>)"
    by (rule inv_clients_upd [OF assms]) (simp_all add: pongHandler_def)
  with Pong show ?thesis by simp
next
  case (InvokeSend r uuids wr f p res)
  show ?thesis
  proof (cases "GQueryFunc_send uuids ms wr f p res (view r w)")
    case None
    with InvokeSend assms show ?thesis by simp
  next
    case (Some g)
    have "registry_inv (gq_store r g w)"
      by (rule inv_gq_store [OF assms]) (use send_ident [OF Some] in simp)
    with InvokeSend Some show ?thesis by simp
  qed
next
  case (InvokeLookup r f mid res)
  have "registry_inv (gq_store r (GQueryFunc_lookup f mid res (view r w)) w)"
    by (rule inv_gq_store [OF assms]) (use lookup_ident in fastforce)
  with InvokeLookup show ?thesis by simp
next
  case (InvokeSelect r f mid a timer pick res)
  have "registry_inv (gq_store r (GQueryFunc_select f mid a timer pick res (view r w)) w)"
    by (rule inv_gq_store [OF assms]) (use select_ident in fastforce)
  with InvokeSelect show ?thesis by simp
qed

lemma inv_run: "registry_inv w \<Longrightarrow> registry_inv (run ur ua ms evs w)"
  unfolding run_def by (induction evs arbitrary: w) (simp_all add: inv_step)

lemma inv_world0: "registry_inv world0"
  by (simp add: registry_inv_def world0_def)

lemma reachable_inv: "registry_inv (run ur ua ms evs world0)"
  by (rule inv_run [OF inv_world0])

lemma map_of_registry:
  assumes "registry_inv w" and "map_of (hlSyncMap w) k = Some r"
  shows "(handlers w r = AwaitingAck \<or> handlers w r = InLoop) \<and>
         k = registryKey (clientGroup (clients w r)) (clientId (clients w r))"
  using assms map_of_SomeD [of "hlSyncMap w" k r] by (auto simp: registry_inv_def)

lemma teardown_effect:
  "handlers (ws_teardown r w) r = Exited"
  "clientWs (clients (ws_teardown r w) r) = ConnClosed"
  "map_of (hlSyncMap (ws_teardown r w))
     (registryKey (clientGroup (clients w r)) (clientId (clients w r))) = None"
  by (simp_all add: ws_teardown_def AList.delete_conv')

lemma accept_effect:
  assumes "grp \<noteq> ''''"
  shows "map_of (hlSyncMap (ws_accept grp cid ip uuid now True w))
           (registryKey grp (if cid = '''' then uuid else cid)) = Some (nextClient w)"
    and "handlers (ws_accept grp cid ip uuid now True w) (nextClient w) = AwaitingAck"
    and "clientWs (clients (ws_accept grp cid ip uuid now True w) (nextClient w)) = ConnOpen"
  using assms by (simp_all add: ws_accept_def Let_def AList.update_conv' NewClient_def)

text \<open>
  A step that is not the select of a request leaves the \<open>failCount\<close> of every
  existing session as it is.
\<close>

lemma gq_store_failCount:
  assumes "\<And>st'. st' \<in> gq_states g \<Longrightarrow> failCount (client st') = failCount (clients w r)"
  shows "failCount (clients (gq_store r g w) r') = failCount (clients w r')"
  using assms by (cases g) (auto simp: gq_store_def store_def)

lemma step_failCount:
  assumes "\<not> is_select e" and "r < nextClient w"
  shows "failCount (clients (step ur ua ms e w) r) = failCount (clients w r)"
proof (cases e)
  case (Accept grp cid ip uuid now upgraded)
  with assms show ?thesis by (simp add: ws_accept_def Let_def)
next
  case (Handshake r' ack)
  then show ?thesis by (simp add: ws_handshake_def ws_teardown_def split: write_result.splits)
next
  case (Read r' rd)
  show ?thesis
  proof (cases "ws_iteration ur ua rd (view r' w)")
    case (Continue st')
    from ws_iteration_health [OF this] Read Continue show ?thesis
      by (simp add: ws_loop_def store_def)
  qed (use Read in \<open>simp_all add: ws_loop_def ws_teardown_def\<close>)
next
  case (Kick grp cid)
  then show ?thesis by (simp add: kickClient_def split: option.splits)
next
  case (Heartbeat r' ok)
  then show ?thesis by (auto simp: heartbeatTick_def split: go.splits if_splits)
next
  case (Pong r' now)
  then show ?thesis by (simp add: pongHandler_def)
next
  case (InvokeSend r' uuids wr f p res)
  show ?thesis
  proof (cases "GQueryFunc_send uuids ms wr f p res (view r' w)")
    case None
    with InvokeSend show ?thesis by simp
  next
    case (Some g)
    have "failCount (clients (gq_store r' g w) r) = failCount (clients w r)"
      by (rule gq_store_failCount) (use send_failCount [OF Some] in simp)
    with InvokeSend Some show ?thesis by simp
  qed
next
  case (InvokeLookup r' f mid res)
  have "failCount (clients (gq_store r' (GQueryFunc_lookup f mid res (view r' w)) w) r) =
          failCount (clients w r)"
    by (rule gq_store_failCount) (use lookup_failCount in fastforce)
  with InvokeLookup show ?thesis by simp
next
  case (InvokeSelect r' f mid a timer pick res)
  with assms show ?thesis by simp
qed

section \<open>Facts about the choice of a session\<close>

text \<open>
  With a client id the choice is the lookup of the key. Without one the chosen session
  is registered, is of the group asked for, and is unhealthy only when the group has
  no healthy session; there is none exactly when the group has no session; and every
  session of the preferred kind is chosen by some draw.
\<close>

lemma getRandomClient_explicit:
  "cid \<noteq> '''' \<Longrightarrow> getRandomClient w draw grp cid = map_of (hlSyncMap w) (registryKey grp cid)"
  by (simp add: getRandomClient_def)

lemma getRandomClient_candidates:
  "getRandomClient w draw grp '''' =
     (let hs = filter (\<lambda>r. healthy (clients w r)) (ofGroup w grp);
          us = filter (\<lambda>r. \<not> healthy (clients w r)) (ofGroup w grp);
          cs = (if hs = [] then us else hs)
      in if cs = [] then None else Some (cs ! (draw mod length cs)))"
  by (simp add: getRandomClient_def getHealthyClient_def ofGroup_def Let_def)

lemma getRandomClient_balanced:
  assumes "getRandomClient w draw grp '''' = Some r"
  shows "r \<in> snd ` set (hlSyncMap w) \<and> clientGroup (clients w r) = grp \<and>
         (\<not> healthy (clients w r) \<longrightarrow>
            (\<forall>r' \<in> snd ` set (hlSyncMap w). clientGroup (clients w r') = grp \<longrightarrow> \<not> healthy (clients w r')))"
proof -
  let ?hs = "filter (\<lambda>r. healthy (clients w r)) (ofGroup w grp)"
  let ?us = "filter (\<lambda>r. \<not> healthy (clients w r)) (ofGroup w grp)"
  let ?cs = "if ?hs = [] then ?us else ?hs"
  from assms have ne: "?cs \<noteq> []" and r: "r = ?cs ! (draw mod length ?cs)"
    by (auto simp: getRandomClient_candidates Let_def split: if_splits)
  from ne have "draw mod length ?cs < length ?cs" by simp
  then have mem: "r \<in> set ?cs" unfolding r by (rule nth_mem)
  have g: "set (ofGroup w grp) = {r \<in> snd ` set (hlSyncMap w). clientGroup (clients w r) = grp}"
    by (auto simp: ofGroup_def)
  show ?thesis
  proof (cases "?hs = []")
    case True
    with mem g show ?thesis by (auto simp: filter_empty_conv)
  next
    case False
    with mem g show ?thesis by auto
  qed
qed

lemma getRandomClient_none:
  "getRandomClient w draw grp '''' = None \<longleftrightarrow>
     (\<forall>r \<in> snd ` set (hlSyncMap w). clientGroup (clients w r) \<noteq> grp)"
proof -
  have g: "set (ofGroup w grp) = {r \<in> snd ` set (hlSyncMap w). clientGroup (clients w r) = grp}"
    by (auto simp: ofGroup_def)
  have "getRandomClient w draw grp '''' = None \<longleftrightarrow> ofGroup w grp = []"
    by (auto simp: getRandomClient_candidates Let_def filter_empty_conv)
  also have "\<dots> \<longleftrightarrow> set (ofGroup w grp) = {}" by simp
  also have "\<dots> \<longleftrightarrow> (\<forall>r \<in> snd ` set (hlSyncMap w). clientGroup (clients w r) \<noteq> grp)"
    unfolding g by auto
  finally show ?thesis .
qed

lemma getRandomClient_any_candidate:
  assumes "r \<in> snd ` set (hlSyncMap w)" and "clientGroup (clients w r) = grp"
    and "healthy (clients w r) \<or>
         (\<forall>r' \<in> snd ` set (hlSyncMap w). clientGroup (clients w r') = grp \<longrightarrow> \<not> healthy (clients w r'))"
  shows "\<exists>draw. getRandomClient w draw grp '''' = Some r"
proof -
  let ?hs = "filter (\<lambda>r. healthy (clients w r)) (ofGroup w grp)"
  let ?us = "filter (\<lambda>r. \<not> healthy (clients w r)) (ofGroup w grp)"
  let ?cs = "if ?hs = [] then ?us else ?hs"
  have g: "set (ofGroup w grp) = {r \<in> snd ` set (hlSyncMap w). clientGroup (clients w r) = grp}"
    by (auto simp: ofGroup_def)
  have "r \<in> set ?cs"
    using assms g by (auto simp: filter_empty_conv)
  then obtain i where i: "i < length ?cs" "?cs ! i = r"
    by (auto simp: in_set_conv_nth)
  then have "?cs \<noteq> []" by auto
  with i have "getRandomClient w i grp '''' = Some r"
    by (simp add: getRandomClient_candidates Let_def)
  then show ?thesis ..
qed


subsection \<open>The select of a call\<close>




text \<open>The same steps evaluated on the call of the example session.\<close>

lemma ex_with_send:
  "GQueryFunc_send [''id1''] ex_marshal WriteOk ''x'' ''p'' (make_chan 1) (ex_with n h) =
     Some (Sent (ex_sent n h) ''id1'')"
  by (simp add: GQueryFunc_send_def ex_with_def ex_sent_def NewClient_def createActionMap_def
      readFromMap_def insertSlot_def ex_marshal_def WriteMessage_def)

lemma ex_sent_lookup:
  "GQueryFunc_lookup ''x'' ''id1'' (make_chan 1) (ex_sent n h) = Waiting (ex_sent n h) ''id1'' 0"
  by (simp add: GQueryFunc_lookup_def ex_sent_def readFromMap_def NewClient_def)

lemma ex_replied_lookup:
  "GQueryFunc_lookup ''x'' ''id1'' (make_chan 1) (ex_replied n h) =
     Waiting (ex_replied n h) ''id1'' 0"
  by (simp add: GQueryFunc_lookup_def ex_replied_def ex_sent_def readFromMap_def NewClient_def)


lemma ex_sent_delivery:
  "writeToMap (ex_sent n h) ''x'' ''id1'' ''reply'' = Delivered (ex_replied n h)"
  by (simp add: writeToMap_def ex_sent_def ex_replied_def readFromMap_def NewClient_def
      chan_send_def make_chan_def)


lemma ex_replied_timed_out:
  "GQueryFunc_select ''x'' ''id1'' 0 True False (make_chan 1) (ex_replied n h) =
     Finished (ex_done (n + 1) (if 3 \<le>s n + 1 then False else h) [''reply''])
       \<lparr>buf = [msg_timeout], cap = 1, closed = True\<rparr>"
  by (simp add: GQueryFunc_select_def ex_sent_def ex_replied_def ex_done_def chan_recv_def
      make_chan_def returnWith_def chan_send_def cleanup_def Let_def chan_close_def onTimeout_def
      NewClient_def)


lemma ex_done_fields:
  "failCount (client (ex_done n h left)) = n" "isHealthy (client (ex_done n h left)) = h"
  by (simp_all add: ex_done_def)

lemma ex_with_fields:
  "failCount (client (ex_with n h)) = n" "isHealthy (client (ex_with n h)) = h"
  by (simp_all add: ex_with_def)

lemma ex_slot:
  "buf (chans (ex_replied n h) 0) = [''reply'']"
  "chans (ex_done n h left) 0 = \<lparr>buf = left, cap = 1, closed = True\<rparr>"
  by (simp_all add: ex_replied_def ex_done_def)


section \<open>The outcome of a request (C1)\<close>



text \<open>
  The first half of C1 as worded does not hold. The call below has its frame written
  and its slot looked up (line 99); the read loop then delivers the reply into the
  slot, so the reply is there before the deadline fires; the deadline of line 97 fires
  before the call reaches line 104. The \<^verbatim>\<open>select\<close> then finds both cases ready and Go
  takes one of them at random: when it takes \<^verbatim>\<open>ctx.Done()\<close> the call returns the
  timeout string, the count goes from 2 to 3 and the session becomes unhealthy,
  and the reply stays unread in the channel that the cleanup closes.
\<close>

theorem reply_delivered_first_yet_timeout:
  "GQueryFunc_send [''id1''] ex_marshal WriteOk ''x'' ''p'' (make_chan 1) (ex_with 2 True) =
     Some (Sent (ex_sent 2 True) ''id1'') \<and>
   GQueryFunc_lookup ''x'' ''id1'' (make_chan 1) (ex_sent 2 True) =
     Waiting (ex_sent 2 True) ''id1'' 0 \<and>
   writeToMap (ex_sent 2 True) ''x'' ''id1'' ''reply'' = Delivered (ex_replied 2 True) \<and>
   buf (chans (ex_replied 2 True) 0) = [''reply''] \<and>
   GQueryFunc_select ''x'' ''id1'' 0 True False (make_chan 1) (ex_replied 2 True) =
     Finished (ex_done 3 False [''reply''])
       \<lparr>buf = [msg_timeout], cap = 1, closed = True\<rparr> \<and>
   failCount (client (ex_with 2 True)) = 2 \<and> isHealthy (client (ex_with 2 True)) \<and>
   failCount (client (ex_done 3 False [''reply''])) = 3 \<and>
   \<not> isHealthy (client (ex_done 3 False [''reply''])) \<and>
   chans (ex_done 3 False [''reply'']) 0 = \<lparr>buf = [''reply''], cap = 1, closed = True\<rparr>"
  by (simp add: ex_with_send ex_sent_lookup ex_sent_delivery ex_replied_timed_out
      ex_with_fields ex_done_fields ex_slot del: One_nat_def)

section \<open>Choosing a session (C2)\<close>

text \<open>
  C2. With a client id, \<^verbatim>\<open>getRandomClient\<close> is the lookup of the key
  \<^verbatim>\<open>group + "->" + clientId\<close> and nothing else. That key does not separate the group
  from the id: the agent \<open>c\<close> that registered in group \<open>a->b\<close> is stored under the key
  \<open>a->b->c\<close>, which is also the key of client id \<open>b->c\<close> in group \<open>a\<close>. So the call for
  group \<open>a\<close> and client id \<open>b->c\<close> returns that session, whose group is \<open>a->b\<close>: a
  session of another group than the one asked for.
\<close>

theorem explicit_id_crosses_groups:
  "getRandomClient world_ab draw ''a'' ''b->c'' = Some 0 \<and>
   clientGroup (clients world_ab 0) = ''a->b'' \<and>
   hlSyncMap world_ab = [(''a->b->c'', 0)]"
  by (simp add: world_ab_def ws_handshake_def ws_accept_def world0_def registryKey_def
      WriteMessage_def NewClient_def Let_def getRandomClient_def)

section \<open>Two calls drawing the same id (C3)\<close>

text \<open>
  C3. Two calls for the action \<open>x\<close> on one session both draw the id \<open>id1\<close>. Each
  tests the id before the other has inserted its channel, so both tests succeed; then
  each inserts. Both calls end up with the message id \<open>id1\<close>; the second insertion
  replaces the channel of the first (address 0) by its own (address 1), so the table
  holds one channel for two outstanding calls.
\<close>

theorem concurrent_calls_share_message_id:
  "\<exists>st0 stA stB.
     st0 = createActionMap ''x'' ex_state \<and>
     assign_step ''x'' ''id1'' Drawing st0 = (Checked ''id1'', st0) \<and>
     assign_step ''x'' ''id1'' (Checked ''id1'') st0 = (Assigned ''id1'', stA) \<and>
     assign_step ''x'' ''id1'' (Checked ''id1'') stA = (Assigned ''id1'', stB) \<and>
     readFromMap (client stA) ''x'' ''id1'' = Some 0 \<and>
     readFromMap (client stB) ''x'' ''id1'' = Some 1"
  by (simp add: ex_state_def NewClient_def createActionMap_def readFromMap_def insertSlot_def)

section \<open>A panic inside the call (C4)\<close>

text \<open>
  C4. A call whose \<^verbatim>\<open>WriteMessage\<close> panics: the deferred cleanup removes the slot and
  closes \<open>resChan\<close> first, so the recover handler's send of the internal-error string
  panics in turn and is swallowed. The call ends with the slot removed, with the write
  lock still held, and with \<open>resChan\<close> closed and empty: no result was delivered.
\<close>

theorem GQueryFunc_panic_result_lost:
  "\<exists>st'. GQueryFunc_send [''id1''] ex_marshal WritePanic ''x'' ''p'' (make_chan 1) ex_state =
            Some (Finished st' \<lparr>buf = [], cap = 1, closed = True\<rparr>) \<and>
          readFromMap (client st') ''x'' ''id1'' = None \<and> wsMu (client st')"
  by (simp add: GQueryFunc_send_def ex_state_def NewClient_def createActionMap_def readFromMap_def
      insertSlot_def ex_marshal_def WriteMessage_def panicExit_def recoverHandler_def chan_send_def
      cleanup_def Let_def chan_close_def make_chan_def)

section \<open>A reply that races the timeout (C5)\<close>

text \<open>
  C5. A reply for a call that is still waiting: the read loop finds the slot (line
  197); before it delivers, the deadline of the call fires and the deferred cleanup
  deletes the entry and closes the channel; the delivery of line 200 then looks the
  entry up again, finds none, and sends on a nil channel, which blocks for ever with
  the lock held. Nothing is caught: the read loop never reads again.
\<close>

theorem late_reply_blocks_read_loop:
  "\<exists>stA a stB r.
     GQueryFunc_send [''id1''] ex_marshal WriteOk ''x'' ''p'' (make_chan 1) ex_state =
       Some (Sent stA ''id1'') \<and>
     readFromMap (client stA) ''x'' ''id1'' = Some a \<and>
     GQueryFunc_wait ''x'' ''id1'' True False (make_chan 1) stA = Finished stB r \<and>
     readFromMap (client stB) ''x'' ''id1'' = None \<and> closed (chans stB a) \<and>
     writeToMap stB ''x'' ''id1'' ''late'' = BlockedNil"
  by (simp add: GQueryFunc_send_def ex_state_def NewClient_def createActionMap_def readFromMap_def
      insertSlot_def ex_marshal_def WriteMessage_def GQueryFunc_wait_def GQueryFunc_lookup_def
      GQueryFunc_select_def chan_recv_def make_chan_def returnWith_def chan_send_def cleanup_def
      Let_def chan_close_def onTimeout_def writeToMap_def)

section \<open>Capability announcements (C6)\<close>

text \<open>
  C6. When the read loop reads a frame that decodes to action \<^verbatim>\<open>_registerActions\<close> with
  an empty message id, the iteration goes on with the session's \<open>registeredActions\<close>
  replaced by the decoded list of \<^verbatim>\<open>response_data\<close> (and left as it was when that does
  not decode), and with nothing else changed: the table \<open>actionData\<close>, every channel,
  \<open>failCount\<close> and \<open>isHealthy\<close> are as before.
\<close>

theorem registerActions_frame:
  assumes "ReadMessage (clientWs (client st)) rd = ReadMsg message"
    and "unmarshalResp message = Some messageStruct"
    and "resp_action messageStruct = ''_registerActions''"
    and "resp_message_id messageStruct = ''''"
  shows "ws_iteration unmarshalResp unmarshalActions rd st =
           Continue (st\<lparr>client := (client st)\<lparr>registeredActions :=
              (case unmarshalActions (resp_response_data messageStruct) of
                 Some actions \<Rightarrow> actions | None \<Rightarrow> registeredActions (client st))\<rparr>\<rparr>) \<and>
         (\<forall>st'. ws_iteration unmarshalResp unmarshalActions rd st = Continue st' \<longrightarrow>
            actionData (client st') = actionData (client st) \<and>
            chans st' = chans st \<and> nextAddr st' = nextAddr st \<and>
            failCount (client st') = failCount (client st) \<and>
            isHealthy (client st') = isHealthy (client st))"
  using assms
  by (auto simp: ws_iteration_def handleResponse_def Let_def split: option.splits)

theorem registerActions_frame_witness:
  "ws_iteration ex_unmarshalResp ex_unmarshalActions (ReadMsg ''announce'') ex_state =
     Continue (ex_state\<lparr>client := (client ex_state)\<lparr>registeredActions := [''dom'', ''cookie'']\<rparr>\<rparr>) \<and>
   actionData (client ex_state\<lparr>registeredActions := [''dom'', ''cookie'']\<rparr>) = actionData (client ex_state) \<and>
   failCount (client ex_state\<lparr>registeredActions := [''dom'', ''cookie'']\<rparr>) = 0 \<and>
   isHealthy (client ex_state\<lparr>registeredActions := [''dom'', ''cookie'']\<rparr>)"
  using registerActions_frame [of ex_state "ReadMsg ''announce''" "''announce''" ex_unmarshalResp
      "MessageResponse ''_registerActions'' '''' ''[dom,cookie]''" ex_unmarshalActions]
  by (simp add: ReadMessage_def ex_state_def NewClient_def ex_unmarshalResp_def ex_unmarshalActions_def)

section \<open>The lifetime of a registry entry (C7)\<close>

text \<open>
  C7, as the code has it. In every world the program reaches: an entry of the registry
  refers to a session whose handler has not returned, under the key of that session's
  group and id; and a session whose handler has returned has a closed connection and
  no entry. The entry is stored when the connection is accepted, before the
  acknowledgement is written; a failed acknowledgement makes the handler return at
  once, which closes the connection and deletes the key; a successful one leaves the
  registry as it is and starts the read loop. A read error in the loop makes the
  handler return in the same way. A kick closes the connection and changes neither the
  registry nor the handler; every later read on that connection is a read error.
\<close>

theorem registry_entry_lifetime:
  assumes "w = run ur ua ms evs world0"
  shows "(\<forall>k r. map_of (hlSyncMap w) k = Some r \<longrightarrow>
            (handlers w r = AwaitingAck \<or> handlers w r = InLoop) \<and>
            k = registryKey (clientGroup (clients w r)) (clientId (clients w r))) \<and>
         (\<forall>r. handlers w r = Exited \<longrightarrow>
            clientWs (clients w r) = ConnClosed \<and> r \<notin> snd ` set (hlSyncMap w)) \<and>
         (grp \<noteq> '''' \<longrightarrow>
            map_of (hlSyncMap (ws_accept grp cid ip uuid now True w))
              (registryKey grp (if cid = '''' then uuid else cid)) = Some (nextClient w) \<and>
            handlers (ws_accept grp cid ip uuid now True w) (nextClient w) = AwaitingAck) \<and>
         (handlers w r = AwaitingAck \<longrightarrow>
            (if WriteMessage (clientWs (clients w r)) ack = WriteOk
             then hlSyncMap (ws_handshake r ack w) = hlSyncMap w \<and>
                  handlers (ws_handshake r ack w) r = InLoop
             else handlers (ws_handshake r ack w) r = Exited \<and>
                  clientWs (clients (ws_handshake r ack w) r) = ConnClosed \<and>
                  map_of (hlSyncMap (ws_handshake r ack w))
                    (registryKey (clientGroup (clients w r)) (clientId (clients w r))) = None)) \<and>
         (handlers w r = InLoop \<longrightarrow> ReadMessage (clientWs (clients w r)) rd = ReadErr \<longrightarrow>
            handlers (ws_loop ur ua r rd w) r = Exited \<and>
            clientWs (clients (ws_loop ur ua r rd w) r) = ConnClosed \<and>
            map_of (hlSyncMap (ws_loop ur ua r rd w))
              (registryKey (clientGroup (clients w r)) (clientId (clients w r))) = None) \<and>
         (map_of (hlSyncMap w) (registryKey g i) = Some r \<longrightarrow> g \<noteq> [] \<longrightarrow> i \<noteq> [] \<longrightarrow>
            hlSyncMap (snd (kickClient g i w)) = hlSyncMap w \<and>
            handlers (snd (kickClient g i w)) = handlers w \<and>
            clientWs (clients (snd (kickClient g i w)) r) = ConnClosed \<and>
            ReadMessage (clientWs (clients (snd (kickClient g i w)) r)) rd = ReadErr)"
proof -
  have inv: "registry_inv w" unfolding assms by (rule reachable_inv)
  have 1: "\<forall>k r. map_of (hlSyncMap w) k = Some r \<longrightarrow>
            (handlers w r = AwaitingAck \<or> handlers w r = InLoop) \<and>
            k = registryKey (clientGroup (clients w r)) (clientId (clients w r))"
    using map_of_registry [OF inv] by blast
  have 2: "\<forall>r. handlers w r = Exited \<longrightarrow>
            clientWs (clients w r) = ConnClosed \<and> r \<notin> snd ` set (hlSyncMap w)"
    using inv by (fastforce simp: registry_inv_def)
  have 3: "grp \<noteq> '''' \<longrightarrow>
            map_of (hlSyncMap (ws_accept grp cid ip uuid now True w))
              (registryKey grp (if cid = '''' then uuid else cid)) = Some (nextClient w) \<and>
            handlers (ws_accept grp cid ip uuid now True w) (nextClient w) = AwaitingAck"
    using accept_effect [of grp cid ip uuid now w] by blast
  have 4: "handlers w r = AwaitingAck \<longrightarrow>
            (if WriteMessage (clientWs (clients w r)) ack = WriteOk
             then hlSyncMap (ws_handshake r ack w) = hlSyncMap w \<and>
                  handlers (ws_handshake r ack w) r = InLoop
             else handlers (ws_handshake r ack w) r = Exited \<and>
                  clientWs (clients (ws_handshake r ack w) r) = ConnClosed \<and>
                  map_of (hlSyncMap (ws_handshake r ack w))
                    (registryKey (clientGroup (clients w r)) (clientId (clients w r))) = None)"
    by (auto simp: ws_handshake_def teardown_effect split: write_result.splits)
  have 5: "handlers w r = InLoop \<longrightarrow> ReadMessage (clientWs (clients w r)) rd = ReadErr \<longrightarrow>
            handlers (ws_loop ur ua r rd w) r = Exited \<and>
            clientWs (clients (ws_loop ur ua r rd w) r) = ConnClosed \<and>
            map_of (hlSyncMap (ws_loop ur ua r rd w))
              (registryKey (clientGroup (clients w r)) (clientId (clients w r))) = None"
    by (simp add: ws_loop_def ws_iteration_def teardown_effect)
  have 6: "map_of (hlSyncMap w) (registryKey g i) = Some r \<longrightarrow> g \<noteq> [] \<longrightarrow> i \<noteq> [] \<longrightarrow>
            hlSyncMap (snd (kickClient g i w)) = hlSyncMap w \<and>
            handlers (snd (kickClient g i w)) = handlers w \<and>
            clientWs (clients (snd (kickClient g i w)) r) = ConnClosed \<and>
            ReadMessage (clientWs (clients (snd (kickClient g i w)) r)) rd = ReadErr"
    by (simp add: kickClient_def ReadMessage_def)
  from 1 2 3 4 5 6 show ?thesis by blast
qed

theorem registry_entry_lifetime_witness:
  "world_g1 = run ex_unmarshalResp ex_unmarshalActions ex_marshal
     [Accept ''g1'' ''A'' ''10.0.0.1'' ''u1'' 1000 True, Handshake 0 WriteOk] world0 \<and>
   map_of (hlSyncMap world_g1) ''g1->A'' = Some 0 \<and>
   handlers world_g1 0 = InLoop \<and>
   registryKey (clientGroup (clients world_g1 0)) (clientId (clients world_g1 0)) = ''g1->A'' \<and>
   handlers (ws_loop ex_unmarshalResp ex_unmarshalActions 0 ReadErr world_g1) 0 = Exited \<and>
   clientWs (clients (ws_loop ex_unmarshalResp ex_unmarshalActions 0 ReadErr world_g1) 0) = ConnClosed \<and>
   map_of (hlSyncMap (ws_loop ex_unmarshalResp ex_unmarshalActions 0 ReadErr world_g1)) ''g1->A'' = None"
proof -
  have r: "world_g1 = run ex_unmarshalResp ex_unmarshalActions ex_marshal
     [Accept ''g1'' ''A'' ''10.0.0.1'' ''u1'' 1000 True, Handshake 0 WriteOk] world0"
    by (simp add: run_def world_g1_def)
  from registry_entry_lifetime [OF r, where r = 0 and rd = ReadErr] r
  show ?thesis
    by (simp add: world_g1_eval registryKey_def ReadMessage_def NewClient_def)
qed

text \<open>
  The claim as stated fails after a kick, which closes the connection and leaves the
  entry to the read loop (until then a lookup still returns the session), and between
  the accept and the acknowledgement, when the entry is already stored.
\<close>

theorem registry_entry_with_closed_socket:
  "map_of (hlSyncMap (snd (kickClient ''g1'' ''A'' world_g1))) (registryKey ''g1'' ''A'') = Some 0 \<and>
   clientWs (clients (snd (kickClient ''g1'' ''A'' world_g1)) 0) = ConnClosed \<and>
   getRandomClient (snd (kickClient ''g1'' ''A'' world_g1)) 0 ''g1'' ''A'' = Some 0 \<and>
   map_of (hlSyncMap (ws_accept ''g1'' ''A'' ''10.0.0.1'' ''u1'' 1000 True world0))
     (registryKey ''g1'' ''A'') = Some 0 \<and>
   handlers (ws_accept ''g1'' ''A'' ''10.0.0.1'' ''u1'' 1000 True world0) 0 = AwaitingAck"
  by (simp add: kickClient_def world_g1_eval registryKey_def ws_accept_def world0_def Let_def
      getRandomClient_def)

section \<open>Heartbeat and pong (C8)\<close>

text \<open>
  C8. A heartbeat tick whose ping could not be sent leaves the session with
  \<open>isHealthy = false\<close> and changes nothing else, so \<open>failCount\<close> is as before; a tick
  whose ping was sent changes nothing. The pong handler changes \<open>lastPingTime\<close> and
  nothing else, so neither \<open>failCount\<close> nor \<open>isHealthy\<close>. Of all the steps of the
  program only the select of a request changes the \<open>failCount\<close> of an existing session:
  it leaves it (still waiting), adds one (timeout), or sets it to 0 together with
  \<open>isHealthy = true\<close>, and that only on its receive branch.
\<close>

theorem heartbeat_pong_health:
  "(heartbeatTick ok c = Done c' \<longrightarrow>
      failCount c' = failCount c \<and> (\<not> ok \<longrightarrow> c' = c\<lparr>isHealthy := False\<rparr>) \<and> (ok \<longrightarrow> c' = c)) \<and>
   (\<not> wsMu c \<longrightarrow> heartbeatTick False c = Done (c\<lparr>isHealthy := False\<rparr>)) \<and>
   pongHandler now c = c\<lparr>lastPingTime := now\<rparr> \<and>
   failCount (pongHandler now c) = failCount c \<and>
   isHealthy (pongHandler now c) = isHealthy c \<and>
   (\<not> is_select e \<longrightarrow> r < nextClient w \<longrightarrow>
      failCount (clients (step ur ua ms e w) r) = failCount (clients w r)) \<and>
   (st' \<in> gq_states (GQueryFunc_select f mid a timer pick res st) \<longrightarrow>
      failCount (client st') = failCount (client st) \<or>
      failCount (client st') = failCount (client st) + 1 \<or>
      (failCount (client st') = 0 \<and> isHealthy (client st') \<and>
       chan_recv (chans st a) \<noteq> None \<and> \<not> (timer \<and> \<not> pick)))"
proof -
  have 1: "heartbeatTick ok c = Done c' \<longrightarrow>
      failCount c' = failCount c \<and> (\<not> ok \<longrightarrow> c' = c\<lparr>isHealthy := False\<rparr>) \<and> (ok \<longrightarrow> c' = c)"
    by (auto simp: heartbeatTick_def split: if_splits)
  have 2: "\<not> wsMu c \<longrightarrow> heartbeatTick False c = Done (c\<lparr>isHealthy := False\<rparr>)"
    by (simp add: heartbeatTick_def)
  have 3: "pongHandler now c = c\<lparr>lastPingTime := now\<rparr> \<and>
     failCount (pongHandler now c) = failCount c \<and> isHealthy (pongHandler now c) = isHealthy c"
    by (simp add: pongHandler_def)
  have 4: "\<not> is_select e \<longrightarrow> r < nextClient w \<longrightarrow>
      failCount (clients (step ur ua ms e w) r) = failCount (clients w r)"
    using step_failCount by blast
  have 5: "st' \<in> gq_states (GQueryFunc_select f mid a timer pick res st) \<longrightarrow>
      failCount (client st') = failCount (client st) \<or>
      failCount (client st') = failCount (client st) + 1 \<or>
      (failCount (client st') = 0 \<and> isHealthy (client st') \<and>
       chan_recv (chans st a) \<noteq> None \<and> \<not> (timer \<and> \<not> pick))"
    using select_failCount by blast
  from 1 2 3 4 5 show ?thesis by blast
qed

theorem heartbeat_pong_health_witness:
  "heartbeatTick False sessA = Done (sessA\<lparr>isHealthy := False\<rparr>) \<and>
   failCount (sessA\<lparr>isHealthy := False\<rparr>) = 2 \<and>
   \<not> isHealthy (sessA\<lparr>isHealthy := False\<rparr>) \<and>
   pongHandler 1015 (sessA\<lparr>isHealthy := False\<rparr>) =
     sessA\<lparr>isHealthy := False, lastPingTime := 1015\<rparr> \<and>
   failCount (pongHandler 1015 (sessA\<lparr>isHealthy := False\<rparr>)) = 2 \<and>
   \<not> isHealthy (pongHandler 1015 (sessA\<lparr>isHealthy := False\<rparr>)) \<and>
   failCount (clients (step ex_unmarshalResp ex_unmarshalActions ex_marshal (Heartbeat 0 False) world_g1) 0) = 0"
  using heartbeat_pong_health [of False sessA "sessA\<lparr>isHealthy := False\<rparr>" 1015
      "Heartbeat 0 False" 0 world_g1 ex_unmarshalResp ex_unmarshalActions ex_marshal]
  by (simp add: heartbeatTick_def pongHandler_def sessA_def NewClient_def world_g1_eval
      world_g1_def ws_handshake_def ws_accept_def world0_def Let_def WriteMessage_def)

section \<open>Kicking a client (C9)\<close>

text \<open>
  C9, as the code has it. In a world the program reaches, a kick of a registered
  session whose read loop runs answers 200, closes the connection of that session and
  leaves the registry as it is. A second kick at that point answers 200 again and
  changes nothing. The next iteration of the session's read loop, whatever arrives,
  ends the handler and removes the entry; a kick after that answers 404 and changes
  nothing.
\<close>

theorem kick_then_teardown:
  assumes "w = run ur ua ms evs world0"
    and "map_of (hlSyncMap w) (registryKey grp cid) = Some r"
    and "grp \<noteq> ''''" and "cid \<noteq> ''''"
    and "handlers w r = InLoop"
  shows "\<exists>w1. kickClient grp cid w = (OK200, w1) \<and>
           clientWs (clients w1 r) = ConnClosed \<and> hlSyncMap w1 = hlSyncMap w \<and>
           kickClient grp cid w1 = (OK200, w1) \<and>
           handlers (ws_loop ur ua r rd w1) r = Exited \<and>
           map_of (hlSyncMap (ws_loop ur ua r rd w1)) (registryKey grp cid) = None \<and>
           kickClient grp cid (ws_loop ur ua r rd w1) = (NotFound404, ws_loop ur ua r rd w1)"
proof -
  have inv: "registry_inv w" unfolding assms(1) by (rule reachable_inv)
  from map_of_registry [OF inv assms(2)]
  have key: "registryKey grp cid = registryKey (clientGroup (clients w r)) (clientId (clients w r))"
    by simp
  let ?w1 = "w\<lparr>clients := (clients w)(r := (clients w r)\<lparr>clientWs := ConnClosed\<rparr>)\<rparr>"
  have k1: "kickClient grp cid w = (OK200, ?w1)"
    using assms by (simp add: kickClient_def)
  have k2: "kickClient grp cid ?w1 = (OK200, ?w1)"
    using assms by (simp add: kickClient_def)
  have l: "ws_loop ur ua r rd ?w1 = ws_teardown r ?w1"
    using assms by (simp add: ws_loop_def ws_iteration_def ReadMessage_def view_def)
  have g: "map_of (hlSyncMap (ws_teardown r ?w1)) (registryKey grp cid) = None"
    using teardown_effect(3) [of r ?w1] key by simp
  have k3: "kickClient grp cid (ws_teardown r ?w1) = (NotFound404, ws_teardown r ?w1)"
    using assms g by (simp add: kickClient_def)
  from k1 k2 l g k3 show ?thesis
    by (simp add: teardown_effect)
qed

theorem kick_then_teardown_witness:
  "world_g1 = run ex_unmarshalResp ex_unmarshalActions ex_marshal
     [Accept ''g1'' ''A'' ''10.0.0.1'' ''u1'' 1000 True, Handshake 0 WriteOk] world0 \<and>
   map_of (hlSyncMap world_g1) (registryKey ''g1'' ''A'') = Some 0 \<and>
   handlers world_g1 0 = InLoop \<and>
   (\<exists>w1. kickClient ''g1'' ''A'' world_g1 = (OK200, w1) \<and>
      clientWs (clients w1 0) = ConnClosed \<and> hlSyncMap w1 = [(''g1->A'', 0)] \<and>
      kickClient ''g1'' ''A'' w1 = (OK200, w1) \<and>
      hlSyncMap (ws_loop ex_unmarshalResp ex_unmarshalActions 0 (ReadMsg ''announce'') w1) = [] \<and>
      fst (kickClient ''g1'' ''A''
            (ws_loop ex_unmarshalResp ex_unmarshalActions 0 (ReadMsg ''announce'') w1)) = NotFound404)"
proof -
  have r: "world_g1 = run ex_unmarshalResp ex_unmarshalActions ex_marshal
     [Accept ''g1'' ''A'' ''10.0.0.1'' ''u1'' 1000 True, Handshake 0 WriteOk] world0"
    by (simp add: run_def world_g1_def)
  have m: "map_of (hlSyncMap world_g1) (registryKey ''g1'' ''A'') = Some 0"
    by (simp add: world_g1_eval registryKey_def)
  have h: "handlers world_g1 0 = InLoop" by (simp add: world_g1_eval)
  from kick_then_teardown [OF r m _ _ h, of "ReadMsg ''announce''"]
  obtain w1 where w1: "kickClient ''g1'' ''A'' world_g1 = (OK200, w1)"
    "clientWs (clients w1 0) = ConnClosed" "hlSyncMap w1 = hlSyncMap world_g1"
    "kickClient ''g1'' ''A'' w1 = (OK200, w1)"
    "handlers (ws_loop ex_unmarshalResp ex_unmarshalActions 0 (ReadMsg ''announce'') w1) 0 = Exited"
    "map_of (hlSyncMap (ws_loop ex_unmarshalResp ex_unmarshalActions 0 (ReadMsg ''announce'') w1))
       (registryKey ''g1'' ''A'') = None"
    "kickClient ''g1'' ''A'' (ws_loop ex_unmarshalResp ex_unmarshalActions 0 (ReadMsg ''announce'') w1) =
       (NotFound404, ws_loop ex_unmarshalResp ex_unmarshalActions 0 (ReadMsg ''announce'') w1)"
    by auto
  have e: "hlSyncMap (ws_loop ex_unmarshalResp ex_unmarshalActions 0 (ReadMsg ''announce'') w1) = []"
    using w1(1) h
    by (auto simp: kickClient_def ws_loop_def ws_iteration_def ReadMessage_def view_def
        ws_teardown_def world_g1_eval registryKey_def NewClient_def split: if_splits)
  from r m h w1 e show ?thesis by (auto simp: world_g1_eval)
qed

text \<open>
  The claim as stated fails for a second kick that comes before the read loop has
  ended: it finds the entry and answers 200, not 404.
\<close>

theorem second_kick_reports_success:
  "fst (kickClient ''g1'' ''A'' (snd (kickClient ''g1'' ''A'' world_g1))) = OK200 \<and>
   fst (kickClient ''g1'' ''A'' world_g1) = OK200"
  by (simp add: kickClient_def world_g1_eval registryKey_def)

section \<open>A call that finds its channel gone (C10)\<close>

text \<open>
  C10. When the table holds no channel under the action and message id of a call at
  the lookup of line 99, the call returns at once, whatever the timer: the one value
  on the result channel is the no-channel string, and the session is left exactly as
  it was, so \<open>failCount\<close> and \<open>isHealthy\<close> are unchanged.
\<close>

theorem GQueryFunc_missing_channel:
  assumes "readFromMap (client st) funcName MessageId = None"
  shows "GQueryFunc_lookup funcName MessageId (make_chan 1) st =
           Finished st \<lparr>buf = [msg_no_channel], cap = 1, closed = True\<rparr> \<and>
         GQueryFunc_wait funcName MessageId timer pick (make_chan 1) st =
           Finished st \<lparr>buf = [msg_no_channel], cap = 1, closed = True\<rparr>"
  using assms
  by (simp add: GQueryFunc_wait_def GQueryFunc_lookup_def returnWith_fresh cleanup_absent)

theorem GQueryFunc_missing_channel_witness:
  "\<exists>stA. GQueryFunc_send [''id1''] ex_marshal WriteOk ''x'' ''p'' (make_chan 1) ex_state =
            Some (Sent stA ''id1'') \<and>
     actionData (client ex_state) ''x'' = None \<and>
     readFromMap (client (createActionMap ''x'' stA)) ''x'' ''id1'' = None \<and>
     GQueryFunc_wait ''x'' ''id1'' False True (make_chan 1) (createActionMap ''x'' stA) =
       Finished (createActionMap ''x'' stA) \<lparr>buf = [msg_no_channel], cap = 1, closed = True\<rparr>"
proof -
  from ex_send obtain stA where
    s: "GQueryFunc_send [''id1''] ex_marshal WriteOk ''x'' ''p'' (make_chan 1) ex_state =
          Some (Sent stA ''id1'')" ..
  have n: "readFromMap (client (createActionMap ''x'' stA)) ''x'' ''id1'' = None"
    by (simp add: createActionMap_def readFromMap_def)
  have a: "actionData (client ex_state) ''x'' = None"
    by (simp add: ex_state_def NewClient_def)
  from GQueryFunc_missing_channel [OF n, of False True] s n a show ?thesis by blast
qed

end
